theory Spec2Isabelle
  imports Complex_Main
begin

section \<open>Values shared by the generator and the ingestion engine\<close>

text \<open>
  Exceptions are values. Floats are modelled as exact rationals: sums and products are
  exact, and Python's \<open>round(x, 2)\<close> is rounding to the nearest cent with ties going to
  the even cent.
\<close>

datatype error = AssertionError | KeyError | ValueError | IndexError | TypeError

definition round_half_even :: "rat \<Rightarrow> int" where
  "round_half_even x =
     (let f = \<lfloor>x\<rfloor>; d = x - of_int f
      in if d < 1 / 2 then f
         else if 1 / 2 < d then f + 1
         else if even f then f else f + 1)"

definition round2 :: "rat \<Rightarrow> rat" where
  "round2 x = of_int (round_half_even (x * 100)) / 100"

definition round3 :: "rat \<Rightarrow> rat" where
  "round3 x = of_int (round_half_even (x * 1000)) / 1000"

subsection \<open>datetime and timedelta\<close>

text \<open>
  A \<open>datetime\<close> is the number of microseconds since midnight before day 1 of the
  proleptic Gregorian calendar (so \<open>toordinal\<close> is the quotient by one day); a
  \<open>timedelta\<close> is a number of microseconds. The calendar functions follow the
  standard library's \<open>_ymd2ord\<close> and \<open>_ord2ymd\<close>.
\<close>

type_synonym datetime = int
type_synonym timedelta = int

definition us_per_day :: int where
  "us_per_day = 86400000000"

definition timedelta_days :: "int \<Rightarrow> timedelta" where
  "timedelta_days d = d * us_per_day"

definition timedelta_hours :: "int \<Rightarrow> timedelta" where
  "timedelta_hours h = h * 3600000000"

definition days :: "timedelta \<Rightarrow> int" where
  "days td = td div us_per_day"

text \<open>
  The \<open>timedelta\<close> constructor takes Python integers. A NumPy integer scalar, as
  \<open>rng.integers\<close> returns it, is not one: \<open>timedelta(hours=x)\<close> raises TypeError for it.
\<close>

datatype number = PyInt int | NpInt64 int

fun timedelta_of_hours :: "number \<Rightarrow> error + timedelta" where
  "timedelta_of_hours (PyInt h) = Inr (timedelta_hours h)"
| "timedelta_of_hours (NpInt64 h) = Inl TypeError"



definition is_leap :: "int \<Rightarrow> bool" where
  "is_leap y = (y mod 4 = 0 \<and> (y mod 100 \<noteq> 0 \<or> y mod 400 = 0))"

definition DAYS_IN_MONTH :: "int list" where
  "DAYS_IN_MONTH = [-1, 31, 28, 31, 30, 31, 30, 31, 31, 30, 31, 30, 31]"

definition DAYS_BEFORE_MONTH :: "int list" where
  "DAYS_BEFORE_MONTH = [-1, 0, 31, 59, 90, 120, 151, 181, 212, 243, 273, 304, 334]"

definition days_before_year :: "int \<Rightarrow> int" where
  "days_before_year year = (let y = year - 1 in y * 365 + y div 4 - y div 100 + y div 400)"

definition days_before_month :: "int \<Rightarrow> int \<Rightarrow> int" where
  "days_before_month year month =
     DAYS_BEFORE_MONTH ! nat month + (if 2 < month \<and> is_leap year then 1 else 0)"

definition ymd2ord :: "int \<Rightarrow> int \<Rightarrow> int \<Rightarrow> int" where
  "ymd2ord year month day = days_before_year year + days_before_month year month + day"

definition ord2ymd :: "int \<Rightarrow> int \<times> int \<times> int" where
  "ord2ymd ord =
     (let n = ord - 1;
          n400 = n div 146097; n = n mod 146097;
          year = n400 * 400 + 1;
          n100 = n div 36524; n = n mod 36524;
          n4 = n div 1461; n = n mod 1461;
          n1 = n div 365; n = n mod 365;
          year = year + n100 * 100 + n4 * 4 + n1
      in if n1 = 4 \<or> n100 = 4 then (year - 1, 12, 31)
         else
           let leapyear = (n1 = 3 \<and> (n4 \<noteq> 24 \<or> n100 = 3));
               month = (n + 50) div 32;
               preceding = DAYS_BEFORE_MONTH ! nat month
                           + (if 2 < month \<and> leapyear then 1 else 0)
           in if n < preceding
              then let month = month - 1;
                       preceding = preceding
                         - (DAYS_IN_MONTH ! nat month
                            + (if month = 2 \<and> leapyear then 1 else 0))
                   in (year, month, n - preceding + 1)
              else (year, month, n - preceding + 1))"

definition mk_datetime :: "int \<Rightarrow> int \<Rightarrow> int \<Rightarrow> datetime" where
  "mk_datetime year month day = ymd2ord year month day * us_per_day"

definition toordinal :: "datetime \<Rightarrow> int" where
  "toordinal dt = dt div us_per_day"

definition weekday :: "datetime \<Rightarrow> int" where
  "weekday dt = (toordinal dt + 6) mod 7"

definition month_of :: "datetime \<Rightarrow> int" where
  "month_of dt = fst (snd (ord2ymd (toordinal dt)))"

subsection \<open>DataFrames\<close>

text \<open>
  A DataFrame built from a list of row dictionaries is the list of its rows; built from
  the empty list it has no columns at all, and reading a column of it raises KeyError.
\<close>

datatype 'r frame = NoColumns | Frame "'r list"

definition DataFrame :: "'r list \<Rightarrow> 'r frame" where
  "DataFrame rs = (if rs = [] then NoColumns else Frame rs)"

fun rows :: "'r frame \<Rightarrow> 'r list" where
  "rows NoColumns = []"
| "rows (Frame rs) = rs"

definition column :: "('r \<Rightarrow> 'a) \<Rightarrow> 'r frame \<Rightarrow> error + 'a list" where
  "column f df = (case df of NoColumns \<Rightarrow> Inl KeyError | Frame rs \<Rightarrow> Inr (map f rs))"

definition select_rows :: "('r \<Rightarrow> bool) \<Rightarrow> 'r frame \<Rightarrow> error + 'r frame" where
  "select_rows f df =
     (case df of NoColumns \<Rightarrow> Inl KeyError | Frame rs \<Rightarrow> Inr (Frame (filter f rs)))"

text \<open>
  Positional reads, of a Python list and of a frame's rows (\<open>.iloc\<close>): an index below
  zero counts back from the end, and one outside the list raises IndexError.
\<close>

definition getitem :: "'a list \<Rightarrow> int \<Rightarrow> error + 'a" where
  "getitem xs i =
     (if 0 \<le> i \<and> i < int (length xs) then Inr (xs ! nat i)
      else if i < 0 \<and> - int (length xs) \<le> i then Inr (xs ! nat (int (length xs) + i))
      else Inl IndexError)"

definition iloc :: "'r list \<Rightarrow> int \<Rightarrow> error + 'r" where
  "iloc rs i = getitem rs i"

section \<open>The advanced generator\<close>

subsection \<open>Rows and configuration\<close>

record customer =
  c_customer_id :: int
  c_first_name :: string
  c_last_name :: string
  c_email :: string
  c_signup_date :: int
  c_customer_tier :: string
  c_country :: string
  c_city :: string
  c_loyalty_score :: rat
  c_is_active :: bool

record product =
  p_product_id :: int
  p_product_name :: string
  p_category :: string
  p_subcategory :: string
  p_price :: rat
  p_cost_price :: rat
  p_stock_quantity :: int
  p_supplier :: string
  p_creation_date :: int
  p_is_active :: bool

record order =
  o_order_id :: int
  o_customer_id :: int
  o_order_date :: datetime
  o_status :: string
  o_shipping_country :: string
  o_shipping_city :: string
  o_total_amount :: rat

record order_item =
  i_order_item_id :: int
  i_order_id :: int
  i_product_id :: int
  i_quantity :: int
  i_unit_price :: rat
  i_subtotal :: rat

record payment =
  y_payment_id :: int
  y_order_id :: int
  y_payment_method :: string
  y_amount :: rat
  y_payment_status :: string
  y_payment_date :: datetime
  y_transaction_id :: string
  y_risk_score :: rat

record config =
  customer_count :: nat
  product_count :: nat
  order_count :: nat
  date_range :: "datetime \<times> datetime"
  price_range :: "rat \<times> rat"
  categories :: "string list"
  payment_methods :: "string list"
  order_statuses :: "string list"

definition default_config :: config where
  "default_config =
     \<lparr>customer_count = 300,
      product_count = 150,
      order_count = 800,
      date_range = (mk_datetime 2023 1 1, mk_datetime 2024 1 1),
      price_range = (5, 500),
      categories = [''Electronics'', ''Clothing'', ''Home & Garden'', ''Books'',
                    ''Sports'', ''Beauty''],
      payment_methods = [''credit_card'', ''debit_card'', ''paypal'', ''apple_pay''],
      order_statuses = [''pending'', ''processing'', ''shipped'', ''delivered'',
                        ''cancelled'']\<rparr>"

subsection \<open>The random sources\<close>

text \<open>
  The seeded NumPy generator and Faker are one state \<open>'s\<close>; every draw takes the state
  and returns the value drawn and the next state. The sampling functions themselves are
  a parameter. \<open>np_integers lo hi\<close> stands for \<open>rng.integers(lo, hi)\<close>,
  \<open>np_randint lo hi\<close> for the legacy \<open>np.random.randint(lo, hi)\<close>,
  \<open>fake_str name\<close> for the Faker provider \<open>fake.name()\<close> that returns text, and
  \<open>fake_date_between\<close> for \<open>fake.date_between\<close>, which returns a \<open>date\<close>.
\<close>

record 's sources =
  np_integers :: "int \<Rightarrow> int \<Rightarrow> 's \<Rightarrow> int \<times> 's"
  np_uniform :: "rat \<Rightarrow> rat \<Rightarrow> 's \<Rightarrow> rat \<times> 's"
  np_random :: "'s \<Rightarrow> rat \<times> 's"
  np_poisson :: "int \<Rightarrow> 's \<Rightarrow> int \<times> 's"
  np_normal :: "rat \<Rightarrow> rat \<Rightarrow> 's \<Rightarrow> rat \<times> 's"
  np_choice :: "string list \<Rightarrow> 's \<Rightarrow> string \<times> 's"
  np_randint :: "int \<Rightarrow> int \<Rightarrow> 's \<Rightarrow> int \<times> 's"
  fake_uuid4 :: "'s \<Rightarrow> string \<times> 's"
  fake_str :: "string \<Rightarrow> 's \<Rightarrow> string \<times> 's"
  fake_date_between :: "datetime \<Rightarrow> datetime \<Rightarrow> 's \<Rightarrow> int \<times> 's"

text \<open>\<open>rng.integers(lo, hi)\<close> raises ValueError when the range is empty.\<close>

definition rng_integers :: "'s sources \<Rightarrow> int \<Rightarrow> int \<Rightarrow> 's \<Rightarrow> error + int \<times> 's" where
  "rng_integers L lo hi s = (if hi \<le> lo then Inl ValueError else Inr (np_integers L lo hi s))"

text \<open>\<open>rng.choice(xs)\<close> raises ValueError on an empty list.\<close>

definition rng_choice :: "'s sources \<Rightarrow> string list \<Rightarrow> 's \<Rightarrow> error + string \<times> 's" where
  "rng_choice L xs s = (if xs = [] then Inl ValueError else Inr (np_choice L xs s))"

text \<open>
  What NumPy documents of \<open>integers\<close>: the value drawn lies in the half-open range.
\<close>

definition integers_in_range :: "'s sources \<Rightarrow> bool" where
  "integers_in_range L =
     (\<forall>lo hi s. lo < hi \<longrightarrow> lo \<le> fst (np_integers L lo hi s) \<and> fst (np_integers L lo hi s) < hi)"

text \<open>
  What NumPy documents of \<open>uniform\<close>: the value drawn lies in the half-open interval.
\<close>

definition uniform_in_range :: "'s sources \<Rightarrow> bool" where
  "uniform_in_range L =
     (\<forall>lo hi s. lo < hi \<longrightarrow> lo \<le> fst (np_uniform L lo hi s) \<and> fst (np_uniform L lo hi s) < hi)"

subsection \<open>Customers and products\<close>















subsection \<open>Orders and order items\<close>

record gen_state =
  orders :: "order list"
  order_items :: "order_item list"
  order_id :: int
  item_id :: int

text \<open>One pass of the item loop: the accumulator is the state and \<open>order_total\<close>.\<close>

definition gen_item ::
  "'s sources \<Rightarrow> product list \<Rightarrow> gen_state \<times> rat \<Rightarrow> 's \<Rightarrow> error + (gen_state \<times> rat) \<times> 's" where
  "gen_item L active_products acc s =
     (case acc of (st, order_total) \<Rightarrow>
      case rng_integers L 0 (int (length active_products)) s of
        Inl e \<Rightarrow> Inl e
      | Inr (k, s1) \<Rightarrow>
      case iloc active_products k of
        Inl e \<Rightarrow> Inl e
      | Inr product \<Rightarrow>
      case rng_integers L 1 3 s1 of
        Inl e \<Rightarrow> Inl e
      | Inr (quantity, s2) \<Rightarrow>
      case np_uniform L (8 / 10) 1 s2 of (u, s3) \<Rightarrow>
        let actual_price = p_price product * u;
            item = \<lparr>i_order_item_id = item_id st,
                    i_order_id = order_id st,
                    i_product_id = p_product_id product,
                    i_quantity = quantity,
                    i_unit_price = round2 actual_price,
                    i_subtotal = round2 (of_int quantity * actual_price)\<rparr>
        in Inr ((st\<lparr>order_items := order_items st @ [item], item_id := item_id st + 1\<rparr>,
                 order_total + of_int quantity * actual_price), s3))"

fun gen_items ::
  "'s sources \<Rightarrow> product list \<Rightarrow> nat \<Rightarrow> gen_state \<times> rat \<Rightarrow> 's \<Rightarrow> error + (gen_state \<times> rat) \<times> 's" where
  "gen_items L active_products 0 acc s = Inr (acc, s)"
| "gen_items L active_products (Suc n) acc s =
     (case gen_item L active_products acc s of
        Inl e \<Rightarrow> Inl e
      | Inr (acc', s') \<Rightarrow> gen_items L active_products n acc' s')"

definition status_idx :: "int \<Rightarrow> int" where
  "status_idx days_ago = min 4 (max 0 (4 - days_ago div 7))"

text \<open>One pass of the loop over the day's orders.\<close>

definition gen_order ::
  "'s sources \<Rightarrow> config \<Rightarrow> customer list \<Rightarrow> product list \<Rightarrow> datetime \<Rightarrow> gen_state \<Rightarrow> 's
     \<Rightarrow> error + gen_state \<times> 's" where
  "gen_order L cfg active_customers active_products current_date st s =
     (case rng_integers L 0 (int (length active_customers)) s of
        Inl e \<Rightarrow> Inl e
      | Inr (k, s1) \<Rightarrow>
      case iloc active_customers k of
        Inl e \<Rightarrow> Inl e
      | Inr customer \<Rightarrow>
      let days_ago = days (snd (date_range cfg) - current_date) in
      case getitem (order_statuses cfg) (status_idx days_ago) of
        Inl e \<Rightarrow> Inl e
      | Inr status \<Rightarrow>
      case rng_integers L 1 5 s1 of
        Inl e \<Rightarrow> Inl e
      | Inr (num_items, s2) \<Rightarrow>
      case gen_items L active_products (nat num_items) (st, 0) s2 of
        Inl e \<Rightarrow> Inl e
      | Inr ((st', order_total), s3) \<Rightarrow>
        let order = \<lparr>o_order_id = order_id st',
                     o_customer_id = c_customer_id customer,
                     o_order_date = current_date,
                     o_status = status,
                     o_shipping_country = c_country customer,
                     o_shipping_city = c_city customer,
                     o_total_amount = round2 order_total\<rparr>
        in Inr (st'\<lparr>orders := orders st' @ [order], order_id := order_id st' + 1\<rparr>, s3))"

fun gen_daily_orders ::
  "'s sources \<Rightarrow> config \<Rightarrow> customer list \<Rightarrow> product list \<Rightarrow> datetime \<Rightarrow> nat \<Rightarrow> gen_state \<Rightarrow> 's
     \<Rightarrow> error + gen_state \<times> 's" where
  "gen_daily_orders L cfg acs aps current_date 0 st s = Inr (st, s)"
| "gen_daily_orders L cfg acs aps current_date (Suc n) st s =
     (case gen_order L cfg acs aps current_date st s of
        Inl e \<Rightarrow> Inl e
      | Inr (st', s') \<Rightarrow> gen_daily_orders L cfg acs aps current_date n st' s')"

definition base_orders_per_day :: "datetime \<Rightarrow> int" where
  "base_orders_per_day current_date =
     2 + (if 5 \<le> weekday current_date then 1 else 0)
       + (if month_of current_date \<in> {11, 12} then 1 else 0)"

text \<open>The loop over the days of the range.\<close>

function gen_days ::
  "'s sources \<Rightarrow> config \<Rightarrow> customer list \<Rightarrow> product list \<Rightarrow> datetime \<Rightarrow> gen_state \<Rightarrow> 's
     \<Rightarrow> error + gen_state \<times> 's" where
  "gen_days L cfg acs aps current_date st s =
     (if current_date \<le> snd (date_range cfg)
      then case np_poisson L (base_orders_per_day current_date) s of (daily_orders, s1) \<Rightarrow>
           (case gen_daily_orders L cfg acs aps current_date (nat daily_orders) st s1 of
              Inl e \<Rightarrow> Inl e
            | Inr (st', s') \<Rightarrow> gen_days L cfg acs aps (current_date + timedelta_days 1) st' s')
      else Inr (st, s))"
  by pat_completeness auto
termination
  by (relation "measure (\<lambda>(L, cfg, acs, aps, d, st, s). nat (snd (date_range cfg) - d + 1))")
     (auto simp: timedelta_days_def us_per_day_def)

definition generate_orders_and_items ::
  "'s sources \<Rightarrow> config \<Rightarrow> customer frame \<Rightarrow> product frame \<Rightarrow> 's
     \<Rightarrow> error + (order frame \<times> order_item frame) \<times> 's" where
  "generate_orders_and_items L cfg customers products s =
     (case select_rows c_is_active customers of
        Inl e \<Rightarrow> Inl e
      | Inr active_customers \<Rightarrow>
      case select_rows p_is_active products of
        Inl e \<Rightarrow> Inl e
      | Inr active_products \<Rightarrow>
      case gen_days L cfg (rows active_customers) (rows active_products)
             (fst (date_range cfg))
             \<lparr>orders = [], order_items = [], order_id = 1, item_id = 1\<rparr> s of
        Inl e \<Rightarrow> Inl e
      | Inr (st, s') \<Rightarrow> Inr ((DataFrame (orders st), DataFrame (order_items st)), s'))"

subsection \<open>Payments\<close>

text \<open>
  One pass of the loop over the order rows. The hour offset drawn by \<open>rng.integers\<close>
  goes to the \<open>timedelta\<close> constructor as the NumPy scalar it is.
\<close>

definition gen_payment ::
  "'s sources \<Rightarrow> config \<Rightarrow> order \<Rightarrow> payment list \<times> int \<Rightarrow> 's
     \<Rightarrow> error + (payment list \<times> int) \<times> 's" where
  "gen_payment L cfg ord acc s =
     (case acc of (payments, payment_id) \<Rightarrow>
      case rng_integers L 1 24 s of
        Inl e \<Rightarrow> Inl e
      | Inr (h, s1) \<Rightarrow>
      case timedelta_of_hours (NpInt64 h) of
        Inl e \<Rightarrow> Inl e
      | Inr offset \<Rightarrow>
      let payment_date = o_order_date ord + offset in
      case np_random L s1 of (u, s2) \<Rightarrow>
      let payment_status =
            (if o_status ord = ''cancelled''
             then (if 1 / 2 < u then ''refunded'' else ''failed'')
             else (if 5 / 100 < u then ''completed'' else ''failed'')) in
      case rng_choice L (payment_methods cfg) s2 of
        Inl e \<Rightarrow> Inl e
      | Inr (payment_method, s3) \<Rightarrow>
      case fake_uuid4 L s3 of (uuid, s4) \<Rightarrow>
      case np_normal L (1 / 10) (3 / 10) s4 of (risk, s5) \<Rightarrow>
        Inr ((payments @
                [\<lparr>y_payment_id = payment_id,
                  y_order_id = o_order_id ord,
                  y_payment_method = payment_method,
                  y_amount = o_total_amount ord,
                  y_payment_status = payment_status,
                  y_payment_date = payment_date,
                  y_transaction_id = take 16 uuid,
                  y_risk_score = risk\<rparr>],
              payment_id + 1), s5))"

fun gen_payments ::
  "'s sources \<Rightarrow> config \<Rightarrow> order list \<Rightarrow> payment list \<times> int \<Rightarrow> 's
     \<Rightarrow> error + (payment list \<times> int) \<times> 's" where
  "gen_payments L cfg [] acc s = Inr (acc, s)"
| "gen_payments L cfg (ord # ords) acc s =
     (case gen_payment L cfg ord acc s of
        Inl e \<Rightarrow> Inl e
      | Inr (acc', s') \<Rightarrow> gen_payments L cfg ords acc' s')"

definition generate_payments ::
  "'s sources \<Rightarrow> config \<Rightarrow> order frame \<Rightarrow> 's \<Rightarrow> error + payment frame \<times> 's" where
  "generate_payments L cfg orders_df s =
     (case gen_payments L cfg (rows orders_df) ([], 1) s of
        Inl e \<Rightarrow> Inl e
      | Inr ((payments, payment_id), s') \<Rightarrow> Inr (DataFrame payments, s'))"

subsection \<open>The integrity validator and the whole run\<close>

text \<open>
  Each \<open>assert\<close> reads its columns left to right (KeyError on a frame without
  columns) and raises AssertionError when its condition is false.
\<close>

definition assert_subset ::
  "error + int list \<Rightarrow> error + int list \<Rightarrow> error + unit" where
  "assert_subset xs ys =
     (case xs of Inl e \<Rightarrow> Inl e | Inr a \<Rightarrow>
      case ys of Inl e \<Rightarrow> Inl e | Inr b \<Rightarrow>
      if set a \<subseteq> set b then Inr () else Inl AssertionError)"

definition assert_all :: "('a \<Rightarrow> bool) \<Rightarrow> error + 'a list \<Rightarrow> error + unit" where
  "assert_all P xs =
     (case xs of Inl e \<Rightarrow> Inl e | Inr a \<Rightarrow>
      if list_all P a then Inr () else Inl AssertionError)"

definition validate_data_integrity ::
  "customer frame \<Rightarrow> product frame \<Rightarrow> order frame \<Rightarrow> order_item frame \<Rightarrow> payment frame
     \<Rightarrow> error + unit" where
  "validate_data_integrity customers products orders_df items_df payments =
     (case assert_subset (column o_customer_id orders_df) (column c_customer_id customers) of
        Inl e \<Rightarrow> Inl e | Inr _ \<Rightarrow>
      case assert_subset (column i_order_id items_df) (column o_order_id orders_df) of
        Inl e \<Rightarrow> Inl e | Inr _ \<Rightarrow>
      case assert_subset (column i_product_id items_df) (column p_product_id products) of
        Inl e \<Rightarrow> Inl e | Inr _ \<Rightarrow>
      case assert_subset (column y_order_id payments) (column o_order_id orders_df) of
        Inl e \<Rightarrow> Inl e | Inr _ \<Rightarrow>
      case assert_all (\<lambda>q. 0 < q) (column i_quantity items_df) of
        Inl e \<Rightarrow> Inl e | Inr _ \<Rightarrow>
      case assert_all (\<lambda>p. 0 \<le> p) (column i_unit_price items_df) of
        Inl e \<Rightarrow> Inl e | Inr _ \<Rightarrow>
      assert_all (\<lambda>p. 0 < p) (column p_price products))"



section \<open>The quick generator\<close>

text \<open>
  \<open>generate_quick_data\<close> fills most columns with one vectorised draw per column. Row
  \<open>i\<close> of such a draw is given by a function of \<open>i\<close>: the drawn columns of the
  customers, products, orders and payments are the fields of \<open>qd_customer i\<close>,
  \<open>qd_product i\<close>, \<open>qd_order i\<close> and \<open>qd_payment i\<close>; the columns the code fills
  itself (the id ranges, the rounded prices and amounts, the payment amount and date) are
  written over them. The item loop draws one number at a time from the random state.
\<close>

record quick_draws =
  qd_customer :: "nat \<Rightarrow> customer"
  qd_product :: "nat \<Rightarrow> product"
  qd_order :: "nat \<Rightarrow> order"
  qd_payment :: "nat \<Rightarrow> payment"

definition quick_customers :: "quick_draws \<Rightarrow> customer list" where
  "quick_customers D = map (\<lambda>i. (qd_customer D i)\<lparr>c_customer_id := int i + 1\<rparr>) [0..<50]"

definition quick_products :: "quick_draws \<Rightarrow> product list" where
  "quick_products D =
     map (\<lambda>i. (qd_product D i)\<lparr>p_product_id := int i + 1,
                                p_price := round2 (p_price (qd_product D i)),
                                p_cost_price := round2 (p_cost_price (qd_product D i))\<rparr>)
       [0..<30]"

definition quick_orders :: "quick_draws \<Rightarrow> order list" where
  "quick_orders D =
     map (\<lambda>i. (qd_order D i)\<lparr>o_order_id := int i + 1,
                              o_total_amount := round2 (o_total_amount (qd_order D i))\<rparr>)
       [0..<100]"

text \<open>One pass of the inner item loop of the quick generator.\<close>

definition quick_item ::
  "'s sources \<Rightarrow> product list \<Rightarrow> int \<Rightarrow> order_item list \<times> int \<Rightarrow> 's
     \<Rightarrow> (order_item list \<times> int) \<times> 's" where
  "quick_item L products oid acc s =
     (case acc of (items, next_id) \<Rightarrow>
      case np_randint L 1 31 s of (product_id, s1) \<Rightarrow>
      case np_randint L 1 3 s1 of (quantity, s2) \<Rightarrow>
      let product_row = filter (\<lambda>p. p_product_id p = product_id) products
      in if 0 < length product_row
         then let unit_price = p_price (hd product_row)
              in ((items @
                     [\<lparr>i_order_item_id = next_id,
                       i_order_id = oid,
                       i_product_id = product_id,
                       i_quantity = quantity,
                       i_unit_price = unit_price,
                       i_subtotal = round2 (of_int quantity * unit_price)\<rparr>],
                   next_id + 1), s2)
         else ((items, next_id), s2))"

fun quick_items ::
  "'s sources \<Rightarrow> product list \<Rightarrow> int \<Rightarrow> nat \<Rightarrow> order_item list \<times> int \<Rightarrow> 's
     \<Rightarrow> (order_item list \<times> int) \<times> 's" where
  "quick_items L products oid 0 acc s = (acc, s)"
| "quick_items L products oid (Suc n) acc s =
     (case quick_item L products oid acc s of (acc', s') \<Rightarrow>
        quick_items L products oid n acc' s')"

fun quick_order_items ::
  "'s sources \<Rightarrow> product list \<Rightarrow> int list \<Rightarrow> order_item list \<times> int \<Rightarrow> 's
     \<Rightarrow> (order_item list \<times> int) \<times> 's" where
  "quick_order_items L products [] acc s = (acc, s)"
| "quick_order_items L products (oid # oids) acc s =
     (case np_randint L 1 4 s of (num_items, s1) \<Rightarrow>
      case quick_items L products oid (nat num_items) acc s1 of (acc', s') \<Rightarrow>
        quick_order_items L products oids acc' s')"

definition quick_payments :: "quick_draws \<Rightarrow> order list \<Rightarrow> payment list" where
  "quick_payments D ords =
     map (\<lambda>i. (qd_payment D i)\<lparr>y_payment_id := int i + 1,
                                y_order_id := int i + 1,
                                y_amount := o_total_amount (ords ! i),
                                y_payment_date := o_order_date (ords ! i),
                                y_risk_score := round3 (y_risk_score (qd_payment D i))\<rparr>)
       [0..<100]"

record quick_data =
  qk_customers :: "customer list"
  qk_products :: "product list"
  qk_orders :: "order list"
  qk_order_items :: "order_item list"
  qk_payments :: "payment list"

definition generate_quick_data :: "'s sources \<Rightarrow> quick_draws \<Rightarrow> 's \<Rightarrow> quick_data \<times> 's" where
  "generate_quick_data L D s =
     (let customers = quick_customers D;
          products = quick_products D;
          ords = quick_orders D
      in case quick_order_items L products (map int [1..<101]) ([], 1) s of
           ((items, next_id), s') \<Rightarrow>
             (\<lparr>qk_customers = customers, qk_products = products, qk_orders = ords,
               qk_order_items = items, qk_payments = quick_payments D ords\<rparr>, s'))"

text \<open>What NumPy documents of \<open>randint\<close>: the value drawn lies in the half-open range.\<close>

definition randint_in_range :: "'s sources \<Rightarrow> bool" where
  "randint_in_range L =
     (\<forall>lo hi s. lo < hi \<longrightarrow> lo \<le> fst (np_randint L lo hi s) \<and> fst (np_randint L lo hi s) < hi)"

section \<open>The ingestion engine\<close>

text \<open>
  A frame read from a CSV file has its header as column names and, per row, a cell for
  every column name: null (NaN), a number, or text. A row is a function from column
  names to cells; only the names of the header matter.
\<close>

datatype cell = Null | Num rat | Str string

record csv_frame =
  df_columns :: "string list"
  df_rows :: "(string \<Rightarrow> cell) list"

definition critical_columns :: "(string \<times> string list) list" where
  "critical_columns =
     [(''customers'', [''customer_id'', ''email'', ''first_name'', ''last_name'']),
      (''products'', [''product_id'', ''product_name'', ''price'']),
      (''orders'', [''order_id'', ''customer_id'', ''order_date'', ''total_amount'']),
      (''order_items'', [''order_item_id'', ''order_id'', ''product_id'', ''quantity'']),
      (''payments'', [''payment_id'', ''order_id'', ''amount'', ''payment_status''])]"

definition isnull_any :: "csv_frame \<Rightarrow> string \<Rightarrow> bool" where
  "isnull_any df col = list_ex (\<lambda>r. r col = Null) (df_rows df)"

text \<open>
  Comparing a column with \<open>0\<close>: NaN compares false, and a text cell makes the
  comparison of the whole column raise TypeError.
\<close>

fun is_text :: "cell \<Rightarrow> bool" where
  "is_text (Str _) = True"
| "is_text _ = False"

fun le_zero :: "cell \<Rightarrow> bool" where
  "le_zero (Num x) = (x \<le> 0)"
| "le_zero _ = False"

fun lt_zero :: "cell \<Rightarrow> bool" where
  "lt_zero (Num x) = (x < 0)"
| "lt_zero _ = False"

definition any_in_column ::
  "(cell \<Rightarrow> bool) \<Rightarrow> string \<Rightarrow> csv_frame \<Rightarrow> error + bool" where
  "any_in_column cmp col df =
     (if col \<in> set (df_columns df)
      then (let cells = map (\<lambda>r. r col) (df_rows df)
            in if list_ex is_text cells then Inl TypeError else Inr (list_ex cmp cells))
      else Inr False)"

record validation_results =
  is_valid :: bool
  issues :: "string list"

definition add_issue :: "string \<Rightarrow> validation_results \<Rightarrow> validation_results" where
  "add_issue msg v = \<lparr>is_valid = False, issues = issues v @ [msg]\<rparr>"

text \<open>
  The body of \<open>validate_data_quality\<close> runs inside \<open>try\<close>; an exception ends it with
  \<open>is_valid = False\<close> and one more issue (whose text quotes the exception).
\<close>

definition validate_data_quality :: "csv_frame \<Rightarrow> string \<Rightarrow> validation_results" where
  "validate_data_quality df table_name =
     (let critical = (case map_of critical_columns table_name of
                        None \<Rightarrow> [] | Some cols \<Rightarrow> cols);
          null_cols = filter (\<lambda>col. col \<in> set (df_columns df) \<and> isnull_any df col) critical;
          v0 = fold (\<lambda>col. add_issue (''Null values found in critical column: '' @ col))
                 null_cols \<lparr>is_valid = True, issues = []\<rparr>
      in case any_in_column le_zero ''quantity'' df of
           Inl e \<Rightarrow> add_issue ''Validation error'' v0
         | Inr bad_quantity \<Rightarrow>
           let v1 = (if bad_quantity then add_issue ''Invalid quantities found (<= 0)'' v0
                     else v0)
           in case any_in_column lt_zero ''price'' df of
                Inl e \<Rightarrow> add_issue ''Validation error'' v1
              | Inr bad_price \<Rightarrow>
                  if bad_price then add_issue ''Negative prices found'' v1 else v1)"

text \<open>
  The ingestor's surroundings: which paths exist, what \<open>pd.read_csv\<close> returns for a
  path (\<open>Unreadable\<close> when it raises), what a bulk insert with commit does to the
  store (\<open>None\<close> when the transaction fails and nothing is written), the store that
  \<open>create_engine\<close> and \<open>Base.metadata.create_all\<close> set up, and what
  \<open>conn.execute\<close> does with a text, given as the list of the statements it holds.
  An exception of the database layer is either a \<open>SQLAlchemyError\<close> or not.
\<close>

datatype csv_file = Missing | Unreadable | Csv csv_frame

datatype db_error = SQLAlchemyError | OtherException

record 'db engine =
  path_exists :: "string \<Rightarrow> bool"
  read_csv :: "string \<Rightarrow> csv_file"
  bulk_save_objects :: "string \<Rightarrow> (string \<times> cell) list list \<Rightarrow> 'db \<Rightarrow> 'db option"
  create_all :: "db_error + 'db"
  conn_execute :: "string list \<Rightarrow> 'db \<Rightarrow> db_error + 'db"


text \<open>\<open>_create_indexes\<close>: four calls of \<open>conn.execute\<close>, one text per table.\<close>

definition create_indexes :: "'db engine \<Rightarrow> 'db \<Rightarrow> db_error + 'db" where
  "create_indexes E db =
     (case conn_execute E
             [''CREATE INDEX IF NOT EXISTS idx_customers_email ON customers(email)'',
              ''CREATE INDEX IF NOT EXISTS idx_customers_country ON customers(country)'',
              ''CREATE INDEX IF NOT EXISTS idx_customers_tier ON customers(customer_tier)'']
             db of
        Inl e \<Rightarrow> Inl e
      | Inr db1 \<Rightarrow>
     (case conn_execute E
             [''CREATE INDEX IF NOT EXISTS idx_orders_customer_date ON orders(customer_id, order_date)'',
              ''CREATE INDEX IF NOT EXISTS idx_orders_status ON orders(status)'',
              ''CREATE INDEX IF NOT EXISTS idx_orders_date ON orders(order_date)'']
             db1 of
        Inl e \<Rightarrow> Inl e
      | Inr db2 \<Rightarrow>
     (case conn_execute E
             [''CREATE INDEX IF NOT EXISTS idx_order_items_order ON order_items(order_id)'',
              ''CREATE INDEX IF NOT EXISTS idx_order_items_product ON order_items(product_id)'']
             db2 of
        Inl e \<Rightarrow> Inl e
      | Inr db3 \<Rightarrow>
        conn_execute E
          [''CREATE INDEX IF NOT EXISTS idx_payments_order ON payments(order_id)'',
           ''CREATE INDEX IF NOT EXISTS idx_payments_status ON payments(payment_status)'',
           ''CREATE INDEX IF NOT EXISTS idx_payments_date ON payments(payment_date)'']
          db3)))"

text \<open>
  \<open>initialize_database\<close> returns True with the store set up (\<open>InitOk\<close>), returns False
  on a \<open>SQLAlchemyError\<close> (\<open>InitFalse\<close>), and lets any other exception through
  (\<open>InitRaised\<close>).
\<close>

datatype 'db init_result = InitOk 'db | InitFalse | InitRaised

definition initialize_database :: "'db engine \<Rightarrow> 'db init_result" where
  "initialize_database E =
     (case create_all E of
        Inl SQLAlchemyError \<Rightarrow> InitFalse
      | Inl OtherException \<Rightarrow> InitRaised
      | Inr db \<Rightarrow>
          (case create_indexes E db of
             Inl SQLAlchemyError \<Rightarrow> InitFalse
           | Inl OtherException \<Rightarrow> InitRaised
           | Inr db' \<Rightarrow> InitOk db'))"

text \<open>The mapped columns of the five models.\<close>

definition model_mapping :: "(string \<times> string list) list" where
  "model_mapping =
     [(''customers'', [''customer_id'', ''first_name'', ''last_name'', ''email'',
                       ''signup_date'', ''customer_tier'', ''country'', ''city'',
                       ''loyalty_score'', ''is_active'']),
      (''products'', [''product_id'', ''product_name'', ''category'', ''subcategory'',
                      ''price'', ''cost_price'', ''stock_quantity'', ''supplier'',
                      ''creation_date'', ''is_active'']),
      (''orders'', [''order_id'', ''customer_id'', ''order_date'', ''status'',
                    ''shipping_country'', ''shipping_city'', ''total_amount'']),
      (''order_items'', [''order_item_id'', ''order_id'', ''product_id'', ''quantity'',
                         ''unit_price'', ''subtotal'']),
      (''payments'', [''payment_id'', ''order_id'', ''payment_method'', ''amount'',
                      ''payment_status'', ''payment_date'', ''transaction_id'',
                      ''risk_score''])]"

definition ingest_table :: "'db engine \<Rightarrow> string \<Rightarrow> string \<Rightarrow> 'db \<Rightarrow> bool \<times> 'db" where
  "ingest_table E table_name csv_path db =
     (case read_csv E csv_path of
        Missing \<Rightarrow> (False, db)
      | Unreadable \<Rightarrow> (False, db)
      | Csv df \<Rightarrow>
          if \<not> is_valid (validate_data_quality df table_name) then (False, db)
          else case map_of model_mapping table_name of
                 None \<Rightarrow> (False, db)
               | Some model \<Rightarrow>
                   let records =
                         map (\<lambda>row. map (\<lambda>col. (col, row col))
                                      (filter (\<lambda>col. col \<in> set model) (df_columns df)))
                           (df_rows df)
                   in case bulk_save_objects E table_name records db of
                        None \<Rightarrow> (False, db)
                      | Some db' \<Rightarrow> (True, db'))"

text \<open>\<open>s.replace('.csv', '')\<close>.\<close>

fun replace_csv :: "string \<Rightarrow> string" where
  "replace_csv [] = []"
| "replace_csv (c # cs) =
     (if take 4 (c # cs) = ''.csv'' then replace_csv (drop 3 cs) else c # replace_csv cs)"

text \<open>\<open>results[key] = value\<close> on a dictionary kept in insertion order.\<close>

fun setitem :: "(string \<times> bool) list \<Rightarrow> string \<Rightarrow> bool \<Rightarrow> (string \<times> bool) list" where
  "setitem [] k v = [(k, v)]"
| "setitem ((k', v') # kvs) k v = (if k' = k then (k, v) # kvs else (k', v') # setitem kvs k v)"

definition ingestion_order :: "string list" where
  "ingestion_order =
     [''customers.csv'', ''products.csv'', ''orders.csv'', ''order_items.csv'',
      ''payments.csv'']"

text \<open>The loop over the files, with the results and the store as its state.\<close>

fun ingest_files ::
  "'db engine \<Rightarrow> string \<Rightarrow> string list \<Rightarrow> (string \<times> bool) list \<times> 'db
     \<Rightarrow> (string \<times> bool) list \<times> 'db" where
  "ingest_files E data_dir [] acc = acc"
| "ingest_files E data_dir (csv_file # rest) acc =
     (case acc of (results, db) \<Rightarrow>
      let table_name = replace_csv csv_file;
          csv_path = data_dir @ ''/'' @ csv_file
      in case ingest_table E table_name csv_path db of (success, db') \<Rightarrow>
           ingest_files E data_dir rest (setitem results table_name success, db'))"

text \<open>
  Writing the report does not change the results: they are returned whether or not it
  raises.
\<close>

definition ingest_all_data ::
  "'db engine \<Rightarrow> string \<Rightarrow> 'db \<Rightarrow> (string \<times> bool) list \<times> 'db" where
  "ingest_all_data E data_dir db =
     (if \<not> path_exists E data_dir then ([], db)
      else ingest_files E data_dir ingestion_order ([], db))"

text \<open>
  The exit code of the ingestion process: \<open>sys.exit(1)\<close> gives 1, returning from
  \<open>main\<close> gives 0. An exception that \<open>initialize_database\<close> lets through is caught
  by \<open>main\<close>, which exits with 1 as well.
\<close>

definition ingestion_main :: "'db engine \<Rightarrow> int" where
  "ingestion_main E =
     (case initialize_database E of
        InitOk db \<Rightarrow>
          (case ingest_all_data E ''data'' db of (results, db') \<Rightarrow>
             if list_all snd results then 0 else 1)
      | InitFalse \<Rightarrow> 1
      | InitRaised \<Rightarrow> 1)"

section \<open>Invariants of the generation loops, and sample data\<close>

text \<open>
  \<open>items_of oid its\<close> are the items of the order \<open>oid\<close>. \<open>item_rel\<close> relates an
  item to the actual (discounted, unrounded) price it was made with, \<open>order_rel\<close> an
  order to its items as one pass of the order loop produces them, and \<open>gen_inv\<close> is the
  invariant of the loops of \<open>generate_orders_and_items\<close>. The sample customers,
  products and random sources give one concrete run, whose orders and items are written
  out.
\<close>

definition items_of :: "int \<Rightarrow> order_item list \<Rightarrow> order_item list" where
  "items_of oid its = filter (\<lambda>i. i_order_id i = oid) its"

definition item_rel :: "'s sources \<Rightarrow> product list \<Rightarrow> order_item \<Rightarrow> rat \<Rightarrow> bool" where
  "item_rel L aps it actual_price =
     (i_unit_price it = round2 actual_price
      \<and> i_subtotal it = round2 (of_int (i_quantity it) * actual_price)
      \<and> (\<exists>p\<in>set aps. \<exists>u. p_product_id p = i_product_id it \<and> actual_price = p_price p * u
             \<and> (uniform_in_range L \<longrightarrow> 8 / 10 \<le> u \<and> u < 1)))"

definition amounts :: "order_item list \<Rightarrow> rat list \<Rightarrow> rat list" where
  "amounts its prices = map2 (\<lambda>it actual_price. of_int (i_quantity it) * actual_price) its prices"

definition order_rel ::
  "'s sources \<Rightarrow> config \<Rightarrow> product list \<Rightarrow> order \<Rightarrow> order_item list \<Rightarrow> bool" where
  "order_rel L cfg aps ord its =
     (getitem (order_statuses cfg)
        (status_idx (days (snd (date_range cfg) - o_order_date ord))) = Inr (o_status ord)
      \<and> (\<exists>prices. list_all2 (item_rel L aps) its prices
             \<and> o_total_amount ord = round2 (sum_list (amounts its prices)))
      \<and> (integers_in_range L \<longrightarrow>
           1 \<le> length its \<and> length its \<le> 4 \<and> (\<forall>i\<in>set its. i_quantity i = 1 \<or> i_quantity i = 2)))"

definition gen_inv :: "'s sources \<Rightarrow> config \<Rightarrow> product list \<Rightarrow> gen_state \<Rightarrow> bool" where
  "gen_inv L cfg aps st =
     ((\<forall>ord\<in>set (orders st). o_order_id ord < order_id st)
      \<and> (\<forall>i\<in>set (order_items st). i_order_id i < order_id st)
      \<and> distinct (map o_order_id (orders st))
      \<and> (\<forall>ord\<in>set (orders st).
            order_rel L cfg aps ord (items_of (o_order_id ord) (order_items st)))
      \<and> (integers_in_range L \<longrightarrow>
           length (orders st) \<le> length (order_items st)
           \<and> length (order_items st) \<le> 4 * length (orders st)
           \<and> (\<forall>i\<in>set (order_items st). i_quantity i = 1 \<or> i_quantity i = 2)))"

definition demo_customers :: "customer frame" where
  "demo_customers = DataFrame
     [\<lparr>c_customer_id = 1, c_first_name = ''Ada'', c_last_name = ''Byron'',
       c_email = ''ada@example.org'', c_signup_date = 738300, c_customer_tier = ''premium'',
       c_country = ''Chile'', c_city = ''Arica'', c_loyalty_score = 50, c_is_active = True\<rparr>,
      \<lparr>c_customer_id = 2, c_first_name = ''Bo'', c_last_name = ''Lind'',
       c_email = ''bo@example.org'', c_signup_date = 738400, c_customer_tier = ''standard'',
       c_country = ''Norway'', c_city = ''Bergen'', c_loyalty_score = 41, c_is_active = False\<rparr>]"

definition demo_products :: "product frame" where
  "demo_products = DataFrame
     [\<lparr>p_product_id = 1, p_product_name = ''Lamp Stand'', p_category = ''Home & Garden'',
       p_subcategory = ''light'', p_price = 25 / 2, p_cost_price = 5, p_stock_quantity = 20,
       p_supplier = ''Acme'', p_creation_date = 738000, p_is_active = True\<rparr>,
      \<lparr>p_product_id = 2, p_product_name = ''Desk Mat'', p_category = ''Home & Garden'',
       p_subcategory = ''desk'', p_price = 40, p_cost_price = 15, p_stock_quantity = 35,
       p_supplier = ''Acme'', p_creation_date = 738100, p_is_active = False\<rparr>]"

definition demo_sources :: "nat sources" where
  "demo_sources =
     \<lparr>np_integers = (\<lambda>lo hi s. (if lo \<le> 4 \<and> hi = 5 then 4
                                 else if hi - lo = 2 then (if s < 200 then lo else lo + 1)
                                 else lo + int s mod (hi - lo), Suc s)),
      np_uniform = (\<lambda>lo hi s. (lo + (hi - lo) / 625, Suc s)),
      np_random = (\<lambda>s. (of_nat ((s + 7) mod 10) / 10, Suc s)),
      np_poisson = (\<lambda>lam s. (if s = 0 \<or> s = 379 then 1 else 0, Suc s)),
      np_normal = (\<lambda>mu sigma s. (mu, Suc s)),
      np_choice = (\<lambda>xs s. (xs ! (s mod length xs), Suc s)),
      np_randint = (\<lambda>lo hi s. (lo + int s mod (hi - lo), Suc s)),
      fake_uuid4 = (\<lambda>s. (''3f2b8c1e-0d4a-4e6f-9a7b-5c1d2e3f4a5b'', Suc s)),
      fake_str = (\<lambda>name s. (name, Suc s)),
      fake_date_between = (\<lambda>start_date end_date s. (start_date div us_per_day, Suc s))\<rparr>"

definition demo_orders :: "order frame" where
  "demo_orders = Frame
     [\<lparr>o_order_id = 1, o_customer_id = 1, o_order_date = mk_datetime 2023 1 1,
       o_status = ''pending'', o_shipping_country = ''Chile'', o_shipping_city = ''Arica'',
       o_total_amount = 4002 / 100\<rparr>,
      \<lparr>o_order_id = 2, o_customer_id = 1, o_order_date = mk_datetime 2024 1 1,
       o_status = ''cancelled'', o_shipping_country = ''Chile'', o_shipping_city = ''Arica'',
       o_total_amount = 8003 / 100\<rparr>]"

definition demo_order_items :: "order_item frame" where
  "demo_order_items = Frame
     [\<lparr>i_order_item_id = 1, i_order_id = 1, i_product_id = 1, i_quantity = 1,
       i_unit_price = 10, i_subtotal = 10\<rparr>,
      \<lparr>i_order_item_id = 2, i_order_id = 1, i_product_id = 1, i_quantity = 1,
       i_unit_price = 10, i_subtotal = 10\<rparr>,
      \<lparr>i_order_item_id = 3, i_order_id = 1, i_product_id = 1, i_quantity = 1,
       i_unit_price = 10, i_subtotal = 10\<rparr>,
      \<lparr>i_order_item_id = 4, i_order_id = 1, i_product_id = 1, i_quantity = 1,
       i_unit_price = 10, i_subtotal = 10\<rparr>,
      \<lparr>i_order_item_id = 5, i_order_id = 2, i_product_id = 1, i_quantity = 2,
       i_unit_price = 10, i_subtotal = 2001 / 100\<rparr>,
      \<lparr>i_order_item_id = 6, i_order_id = 2, i_product_id = 1, i_quantity = 2,
       i_unit_price = 10, i_subtotal = 2001 / 100\<rparr>,
      \<lparr>i_order_item_id = 7, i_order_id = 2, i_product_id = 1, i_quantity = 2,
       i_unit_price = 10, i_subtotal = 2001 / 100\<rparr>,
      \<lparr>i_order_item_id = 8, i_order_id = 2, i_product_id = 1, i_quantity = 2,
       i_unit_price = 10, i_subtotal = 2001 / 100\<rparr>]"


text \<open>
  A payments table for the two sample orders, as an input of the validator.
\<close>

definition demo_payments :: "payment frame" where
  "demo_payments = Frame
     [\<lparr>y_payment_id = 1, y_order_id = 1, y_payment_method = ''credit_card'',
       y_amount = 4002 / 100, y_payment_status = ''completed'',
       y_payment_date = mk_datetime 2023 1 1 + timedelta_hours 4,
       y_transaction_id = ''3f2b8c1e-0d4a-4e'', y_risk_score = 1 / 10\<rparr>,
      \<lparr>y_payment_id = 2, y_order_id = 2, y_payment_method = ''debit_card'',
       y_amount = 8003 / 100, y_payment_status = ''refunded'',
       y_payment_date = mk_datetime 2024 1 1 + timedelta_hours 9,
       y_transaction_id = ''3f2b8c1e-0d4a-4e'', y_risk_score = 1 / 10\<rparr>]"

definition demo_draws :: quick_draws where
  "demo_draws =
     \<lparr>qd_customer = (\<lambda>i.
        \<lparr>c_customer_id = 0, c_first_name = ''Ada'', c_last_name = ''Byron'',
         c_email = ''ada@example.org'', c_signup_date = 738900 + int i,
         c_customer_tier = ''standard'', c_country = ''Chile'', c_city = ''Arica'',
         c_loyalty_score = 50 + of_nat i, c_is_active = True\<rparr>),
      qd_product = (\<lambda>i.
        \<lparr>p_product_id = 0, p_product_name = ''Lamp Stand'', p_category = ''Books'',
         p_subcategory = ''light'', p_price = 10 + of_nat i / 8,
         p_cost_price = 5 + of_nat i / 16, p_stock_quantity = 10 + int i,
         p_supplier = ''Acme'', p_creation_date = 738500 + int i, p_is_active = True\<rparr>),
      qd_order = (\<lambda>i.
        \<lparr>o_order_id = 0, o_customer_id = 1 + int (i mod 50),
         o_order_date = mk_datetime 2024 3 1 + timedelta_hours (int i),
         o_status = ''shipped'', o_shipping_country = ''Chile'', o_shipping_city = ''Arica'',
         o_total_amount = 20 + of_nat i / 8\<rparr>),
      qd_payment = (\<lambda>i.
        \<lparr>y_payment_id = 0, y_order_id = 0, y_payment_method = ''paypal'', y_amount = 0,
         y_payment_status = ''completed'', y_payment_date = 0,
         y_transaction_id = ''3f2b8c1e-0d4a-4e'', y_risk_score = 1 / 10\<rparr>)\<rparr>"

text \<open>
  Sample files for the ingestion engine. In \<open>customers_missing_email\<close> the second
  customer has no email. The sample store appends every committed batch.
\<close>

definition customers_missing_email :: csv_frame where
  "customers_missing_email =
     \<lparr>df_columns = [''customer_id'', ''first_name'', ''last_name'', ''email''],
      df_rows =
        [(\<lambda>c. if c = ''customer_id'' then Num 1 else if c = ''first_name'' then Str ''Ada''
              else if c = ''last_name'' then Str ''Byron''
              else if c = ''email'' then Str ''ada@example.org'' else Null),
         (\<lambda>c. if c = ''customer_id'' then Num 2 else if c = ''first_name'' then Str ''Bo''
              else if c = ''last_name'' then Str ''Lind'' else Null)]\<rparr>"


definition products_csv :: csv_frame where
  "products_csv =
     \<lparr>df_columns = [''product_id'', ''product_name'', ''price''],
      df_rows =
        [(\<lambda>c. if c = ''product_id'' then Num 1 else if c = ''product_name'' then Str ''Lamp''
              else if c = ''price'' then Num (25 / 2) else Null)]\<rparr>"

definition orders_csv :: csv_frame where
  "orders_csv =
     \<lparr>df_columns = [''order_id'', ''customer_id'', ''order_date'', ''total_amount''],
      df_rows =
        [(\<lambda>c. if c = ''order_id'' then Num 1 else if c = ''customer_id'' then Num 1
              else if c = ''order_date'' then Str ''2023-01-01''
              else if c = ''total_amount'' then Num (4002 / 100) else Null)]\<rparr>"

definition order_items_csv :: csv_frame where
  "order_items_csv =
     \<lparr>df_columns = [''order_item_id'', ''order_id'', ''product_id'', ''quantity''],
      df_rows =
        [(\<lambda>c. if c = ''order_item_id'' then Num 1 else if c = ''order_id'' then Num 1
              else if c = ''product_id'' then Num 1
              else if c = ''quantity'' then Num 2 else Null)]\<rparr>"

definition payments_csv :: csv_frame where
  "payments_csv =
     \<lparr>df_columns = [''payment_id'', ''order_id'', ''amount'', ''payment_status''],
      df_rows =
        [(\<lambda>c. if c = ''payment_id'' then Num 1 else if c = ''order_id'' then Num 1
              else if c = ''amount'' then Num (4002 / 100)
              else if c = ''payment_status'' then Str ''completed'' else Null)]\<rparr>"

type_synonym sample_store = "(string \<times> (string \<times> cell) list list) list"

text \<open>
  Surroundings with a data directory holding the five files, an empty store after
  \<open>create_all\<close>, and a driver that refuses a text of several statements.
\<close>

definition sample_engine :: "csv_frame \<Rightarrow> sample_store engine" where
  "sample_engine customers_file =
     \<lparr>path_exists = (\<lambda>p. p = ''data''),
      read_csv = (\<lambda>p. if p = ''data/customers.csv'' then Csv customers_file
                       else if p = ''data/products.csv'' then Csv products_csv
                       else if p = ''data/orders.csv'' then Csv orders_csv
                       else if p = ''data/order_items.csv'' then Csv order_items_csv
                       else if p = ''data/payments.csv'' then Csv payments_csv
                       else Missing),
      bulk_save_objects = (\<lambda>t records db. Some (db @ [(t, records)])),
      create_all = Inr [],
      conn_execute = (\<lambda>statements db. if 1 < length statements then Inl SQLAlchemyError
                                        else Inr db)\<rparr>"

section \<open>Properties of the advanced generator\<close>

subsection \<open>Rounding to cents\<close>


lemma round_half_even_bound: "\<bar>of_int (round_half_even x) - x\<bar> \<le> 1 / 2"
proof -
  have "of_int \<lfloor>x\<rfloor> \<le> x" "x < of_int \<lfloor>x\<rfloor> + 1" by linarith+
  then show ?thesis
    by (auto simp: round_half_even_def Let_def)
qed

lemma round2_bound: "\<bar>round2 x - x\<bar> \<le> 1 / 200"
proof -
  have "\<bar>of_int (round_half_even (x * 100)) - x * 100\<bar> \<le> 1 / 2"
    by (rule round_half_even_bound)
  then show ?thesis
    unfolding round2_def by (simp add: field_simps abs_le_iff)
qed

lemma round2_le: "round2 x - x \<le> 1 / 200" "x - round2 x \<le> 1 / 200"
  using round2_bound [of x] unfolding abs_le_iff by linarith+

lemma sum_round2_bound:
  "sum_list xs - sum_list (map round2 xs) \<le> of_nat (length xs) / 200
   \<and> sum_list (map round2 xs) - sum_list xs \<le> of_nat (length xs) / 200"
proof (induction xs)
  case Nil show ?case by simp
next
  case (Cons x xs)
  have "(of_nat (length (x # xs)) :: rat) / 200 = of_nat (length xs) / 200 + 1 / 200"
    by (simp add: add_divide_distrib)
  moreover have "sum_list (x # xs) = x + sum_list xs"
    "sum_list (map round2 (x # xs)) = round2 x + sum_list (map round2 xs)" by simp_all
  ultimately show ?case using Cons round2_le [of x] by linarith
qed

lemma round2_sum_bound:
  "\<bar>round2 (sum_list xs) - sum_list (map round2 xs)\<bar> \<le> (of_nat (length xs) + 1) / 200"
proof -
  have "((of_nat (length xs) :: rat) + 1) / 200 = of_nat (length xs) / 200 + 1 / 200"
    by (simp add: add_divide_distrib)
  then show ?thesis
    unfolding abs_le_iff
    using sum_round2_bound [of xs] round2_le [of "sum_list xs"] by linarith
qed

subsection \<open>The loops of \<open>generate_orders_and_items\<close>\<close>

lemma rng_integers_range:
  "integers_in_range L \<Longrightarrow> rng_integers L lo hi s = Inr (k, s') \<Longrightarrow> lo \<le> k \<and> k < hi"
  unfolding integers_in_range_def rng_integers_def
  by (auto split: if_splits) (metis fst_conv not_le)+

lemma getitem_in_set: "getitem xs i = Inr x \<Longrightarrow> x \<in> set xs"
  unfolding getitem_def by (auto split: if_splits)

lemma np_uniform_range:
  "uniform_in_range L \<Longrightarrow> np_uniform L lo hi s = (u, s') \<Longrightarrow> lo < hi \<Longrightarrow> lo \<le> u \<and> u < hi"
  unfolding uniform_in_range_def by (metis fst_conv)

lemma gen_item_step:
  assumes "gen_item L aps (st, tot) s = Inr ((st', tot'), s')"
  shows "\<exists>it a. order_items st' = order_items st @ [it] \<and> orders st' = orders st
           \<and> order_id st' = order_id st \<and> i_order_id it = order_id st
           \<and> item_rel L aps it a \<and> tot' = tot + of_int (i_quantity it) * a
           \<and> (integers_in_range L \<longrightarrow> i_quantity it = 1 \<or> i_quantity it = 2)"
proof -
  obtain k s1 where 1: "rng_integers L 0 (int (length aps)) s = Inr (k, s1)"
    using assms unfolding gen_item_def
    by (cases "rng_integers L 0 (int (length aps)) s") auto
  obtain product where 2: "iloc aps k = Inr product"
    using assms 1 unfolding gen_item_def by (cases "iloc aps k") auto
  obtain quantity s2 where 3: "rng_integers L 1 3 s1 = Inr (quantity, s2)"
    using assms 1 2 unfolding gen_item_def by (cases "rng_integers L 1 3 s1") auto
  obtain u s3 where 4: "np_uniform L (8 / 10) 1 s2 = (u, s3)"
    by (cases "np_uniform L (8 / 10) 1 s2")
  let ?a = "p_price product * u"
  let ?it = "\<lparr>i_order_item_id = item_id st, i_order_id = order_id st,
              i_product_id = p_product_id product, i_quantity = quantity,
              i_unit_price = round2 ?a, i_subtotal = round2 (of_int quantity * ?a)\<rparr>"
  have res: "st' = st\<lparr>order_items := order_items st @ [?it], item_id := item_id st + 1\<rparr>"
    "tot' = tot + of_int quantity * ?a"
    using assms 1 2 3 4 unfolding gen_item_def by (simp_all add: Let_def)
  have mem: "product \<in> set aps"
    using 2 unfolding iloc_def by (rule getitem_in_set)
  have u: "uniform_in_range L \<longrightarrow> 8 / 10 \<le> u \<and> u < 1"
    using np_uniform_range [OF _ 4] by simp
  have q: "integers_in_range L \<longrightarrow> quantity = 1 \<or> quantity = 2"
    using rng_integers_range [OF _ 3] by auto
  have "item_rel L aps ?it ?a"
    unfolding item_rel_def using mem u by auto
  with res q show ?thesis
    by (intro exI [of _ ?it] exI [of _ ?a]) simp
qed

lemma amounts_Cons:
  "amounts (it # its) (a # prices) = of_int (i_quantity it) * a # amounts its prices"
  by (simp add: amounts_def)

lemma gen_items_steps:
  "gen_items L aps n (st, tot) s = Inr ((st', tot'), s') \<Longrightarrow>
   \<exists>its prices. length its = n \<and> order_items st' = order_items st @ its
     \<and> orders st' = orders st
     \<and> order_id st' = order_id st \<and> (\<forall>i\<in>set its. i_order_id i = order_id st)
     \<and> list_all2 (item_rel L aps) its prices \<and> tot' = tot + sum_list (amounts its prices)
     \<and> (integers_in_range L \<longrightarrow> (\<forall>i\<in>set its. i_quantity i = 1 \<or> i_quantity i = 2))"
proof (induction n arbitrary: st tot s)
  case 0
  then show ?case by (auto simp: amounts_def)
next
  case (Suc n)
  from Suc.prems obtain st1 tot1 s1 where
    a: "gen_item L aps (st, tot) s = Inr ((st1, tot1), s1)" and
    b: "gen_items L aps n (st1, tot1) s1 = Inr ((st', tot'), s')"
    by (auto split: sum.splits)
  from gen_item_step [OF a] obtain it x where
    it: "order_items st1 = order_items st @ [it]" "orders st1 = orders st"
        "order_id st1 = order_id st" "i_order_id it = order_id st"
        "item_rel L aps it x" "tot1 = tot + of_int (i_quantity it) * x"
        "integers_in_range L \<longrightarrow> i_quantity it = 1 \<or> i_quantity it = 2"
    by blast
  from Suc.IH [OF b] obtain its prices where
    its: "length its = n" "order_items st' = order_items st1 @ its" "orders st' = orders st1"
         "order_id st' = order_id st1" "\<forall>i\<in>set its. i_order_id i = order_id st1"
         "list_all2 (item_rel L aps) its prices" "tot' = tot1 + sum_list (amounts its prices)"
         "integers_in_range L \<longrightarrow> (\<forall>i\<in>set its. i_quantity i = 1 \<or> i_quantity i = 2)"
    by blast
  show ?case
    apply (rule exI [of _ "it # its"], rule exI [of _ "x # prices"])
    using it its by (auto simp: amounts_Cons)
qed

lemma gen_order_step:
  assumes "gen_order L cfg acs aps cur st s = Inr (st', s')"
  shows "\<exists>ord its. orders st' = orders st @ [ord] \<and> order_items st' = order_items st @ its
           \<and> order_id st' = order_id st + 1 \<and> o_order_id ord = order_id st
           \<and> o_order_date ord = cur
           \<and> (\<forall>i\<in>set its. i_order_id i = order_id st) \<and> order_rel L cfg aps ord its"
proof -
  let ?status = "getitem (order_statuses cfg) (status_idx (days (snd (date_range cfg) - cur)))"
  obtain k s1 where 1: "rng_integers L 0 (int (length acs)) s = Inr (k, s1)"
    using assms unfolding gen_order_def
    by (cases "rng_integers L 0 (int (length acs)) s") auto
  obtain customer where 2: "iloc acs k = Inr customer"
    using assms 1 unfolding gen_order_def by (cases "iloc acs k") auto
  obtain status where status: "?status = Inr status"
    using assms 1 2 unfolding gen_order_def by (cases ?status) (auto simp: Let_def)
  obtain num_items s2 where n: "rng_integers L 1 5 s1 = Inr (num_items, s2)"
    using assms 1 2 status unfolding gen_order_def
    by (cases "rng_integers L 1 5 s1") (auto simp: Let_def)
  obtain st2 order_total s3 where
    items: "gen_items L aps (nat num_items) (st, 0) s2 = Inr ((st2, order_total), s3)"
    using assms 1 2 status n unfolding gen_order_def
    by (cases "gen_items L aps (nat num_items) (st, 0) s2") (auto simp: Let_def)
  have st': "st' = st2\<lparr>orders := orders st2 @
            [\<lparr>o_order_id = order_id st2, o_customer_id = c_customer_id customer,
              o_order_date = cur, o_status = status,
              o_shipping_country = c_country customer,
              o_shipping_city = c_city customer,
              o_total_amount = round2 order_total\<rparr>],
            order_id := order_id st2 + 1\<rparr>"
    using assms 1 2 status n items unfolding gen_order_def by (simp add: Let_def)
  from gen_items_steps [OF items] obtain its prices where
    its: "length its = nat num_items" "order_items st2 = order_items st @ its"
         "orders st2 = orders st" "order_id st2 = order_id st"
         "\<forall>i\<in>set its. i_order_id i = order_id st"
         "list_all2 (item_rel L aps) its prices" "order_total = sum_list (amounts its prices)"
         "integers_in_range L \<longrightarrow> (\<forall>i\<in>set its. i_quantity i = 1 \<or> i_quantity i = 2)"
    by auto
  have len: "integers_in_range L \<longrightarrow> 1 \<le> length its \<and> length its \<le> 4"
    using rng_integers_range [OF _ n] its(1) by auto
  let ?ord = "\<lparr>o_order_id = order_id st2, o_customer_id = c_customer_id customer,
              o_order_date = cur, o_status = status,
              o_shipping_country = c_country customer,
              o_shipping_city = c_city customer,
              o_total_amount = round2 order_total\<rparr>"
  have "order_rel L cfg aps ?ord its"
    unfolding order_rel_def using status its(6,7,8) len by auto
  then show ?thesis
    apply (intro exI [of _ ?ord] exI [of _ its])
    using st' its by simp
qed

lemma rows_DataFrame: "rows (DataFrame rs) = rs"
  by (simp add: DataFrame_def)

lemma items_of_append: "items_of k (xs @ ys) = items_of k xs @ items_of k ys"
  by (simp add: items_of_def)

lemma items_of_none: "\<forall>i\<in>set xs. i_order_id i \<noteq> k \<Longrightarrow> items_of k xs = []"
  by (simp add: items_of_def)

lemma items_of_all: "\<forall>i\<in>set xs. i_order_id i = k \<Longrightarrow> items_of k xs = xs"
  by (simp add: items_of_def)

lemma gen_order_inv:
  assumes inv: "gen_inv L cfg aps st"
    and step: "gen_order L cfg acs aps cur st s = Inr (st', s')"
  shows "gen_inv L cfg aps st'"
proof -
  from gen_order_step [OF step] obtain ord its where
    st': "orders st' = orders st @ [ord]" "order_items st' = order_items st @ its"
         "order_id st' = order_id st + 1" "o_order_id ord = order_id st" and
    its: "\<forall>i\<in>set its. i_order_id i = order_id st" and
    rel: "order_rel L cfg aps ord its"
    by blast
  from inv have
    old_o: "\<forall>x\<in>set (orders st). o_order_id x < order_id st" and
    old_i: "\<forall>i\<in>set (order_items st). i_order_id i < order_id st" and
    dist: "distinct (map o_order_id (orders st))" and
    old_rel: "\<forall>x\<in>set (orders st). order_rel L cfg aps x (items_of (o_order_id x) (order_items st))" and
    cnt: "integers_in_range L \<longrightarrow> length (orders st) \<le> length (order_items st)
            \<and> length (order_items st) \<le> 4 * length (orders st)
            \<and> (\<forall>i\<in>set (order_items st). i_quantity i = 1 \<or> i_quantity i = 2)"
    unfolding gen_inv_def by blast+
  have a: "\<forall>x\<in>set (orders st'). o_order_id x < order_id st'"
    using st' old_o by auto
  have b: "\<forall>i\<in>set (order_items st'). i_order_id i < order_id st'"
    using st' old_i its by auto
  have c: "distinct (map o_order_id (orders st'))"
    using st' dist old_o by auto
  have new_items: "items_of (o_order_id ord) (order_items st') = its"
  proof -
    have "items_of (order_id st) (order_items st) = []"
      using old_i by (intro items_of_none) auto
    moreover have "items_of (order_id st) its = its"
      using its by (intro items_of_all) auto
    ultimately show ?thesis using st' by (simp add: items_of_append)
  qed
  have old_items: "items_of (o_order_id x) (order_items st') = items_of (o_order_id x) (order_items st)"
    if "x \<in> set (orders st)" for x
  proof -
    have "o_order_id x < order_id st" using old_o that by auto
    then have "items_of (o_order_id x) its = []"
      using its by (intro items_of_none) auto
    then show ?thesis using st' by (simp add: items_of_append)
  qed
  have d: "\<forall>x\<in>set (orders st'). order_rel L cfg aps x (items_of (o_order_id x) (order_items st'))"
    using st'(1) new_items old_items old_rel rel by auto
  have e: "integers_in_range L \<longrightarrow> length (orders st') \<le> length (order_items st')
            \<and> length (order_items st') \<le> 4 * length (orders st')
            \<and> (\<forall>i\<in>set (order_items st'). i_quantity i = 1 \<or> i_quantity i = 2)"
    using cnt rel st' unfolding order_rel_def by auto
  from a b c d e show ?thesis unfolding gen_inv_def by blast
qed

lemma gen_daily_orders_inv:
  "gen_inv L cfg aps st \<Longrightarrow> gen_daily_orders L cfg acs aps cur n st s = Inr (st', s')
     \<Longrightarrow> gen_inv L cfg aps st'"
proof (induction n arbitrary: st s)
  case 0
  then show ?case by simp
next
  case (Suc n)
  from Suc.prems(2) obtain st1 s1 where
    a: "gen_order L cfg acs aps cur st s = Inr (st1, s1)" and
    b: "gen_daily_orders L cfg acs aps cur n st1 s1 = Inr (st', s')"
    by (auto split: sum.splits)
  from gen_order_inv [OF Suc.prems(1) a] Suc.IH b show ?case by blast
qed

lemma gen_days_inv:
  "gen_inv L cfg aps st \<Longrightarrow> gen_days L cfg acs aps cur st s = Inr (st', s') \<Longrightarrow> gen_inv L cfg aps st'"
proof (induction L cfg acs aps cur st s rule: gen_days.induct)
  case (1 L cfg acs aps current_date st s)
  show ?case
  proof (cases "current_date \<le> snd (date_range cfg)")
    case False
    with "1.prems" show ?thesis by (simp add: gen_days.simps [of L cfg acs aps current_date])
  next
    case True
    obtain daily s1 where p: "np_poisson L (base_orders_per_day current_date) s = (daily, s1)"
      by (cases "np_poisson L (base_orders_per_day current_date) s")
    from "1.prems"(2) True p obtain st1 s2 where
      a: "gen_daily_orders L cfg acs aps current_date (nat daily) st s1 = Inr (st1, s2)" and
      b: "gen_days L cfg acs aps (current_date + timedelta_days 1) st1 s2 = Inr (st', s')"
      by (subst (asm) gen_days.simps) (auto split: sum.splits)
    have "gen_inv L cfg aps st1" using gen_daily_orders_inv [OF "1.prems"(1) a] .
    from "1.IH" [OF True p [symmetric] a refl this b] show ?thesis .
  qed
qed

lemma gen_inv_init:
  "gen_inv L cfg aps \<lparr>orders = [], order_items = [], order_id = 1, item_id = 1\<rparr>"
  by (simp add: gen_inv_def)

lemma select_rows_rows:
  "select_rows f df = Inr active \<Longrightarrow> rows active = filter f (rows df)"
  unfolding select_rows_def by (cases df) auto

lemma generate_orders_and_items_inv:
  assumes "generate_orders_and_items L cfg customers products s = Inr ((odf, idf), s')"
  shows "\<exists>st. gen_inv L cfg (filter p_is_active (rows products)) st
           \<and> rows odf = orders st \<and> rows idf = order_items st"
proof -
  obtain acf where 1: "select_rows c_is_active customers = Inr acf"
    using assms unfolding generate_orders_and_items_def
    by (cases "select_rows c_is_active customers") auto
  obtain apf where 2: "select_rows p_is_active products = Inr apf"
    using assms 1 unfolding generate_orders_and_items_def
    by (cases "select_rows p_is_active products") auto
  let ?aps = "filter p_is_active (rows products)"
  have aps: "rows apf = ?aps" using 2 by (rule select_rows_rows)
  let ?run = "gen_days L cfg (rows acf) (rows apf) (fst (date_range cfg))
            \<lparr>orders = [], order_items = [], order_id = 1, item_id = 1\<rparr> s"
  obtain st s1 where r: "?run = Inr (st, s1)"
    using assms 1 2 unfolding generate_orders_and_items_def
    by (cases ?run) (auto simp del: gen_days.simps)
  have out: "odf = DataFrame (orders st)" "idf = DataFrame (order_items st)" "s1 = s'"
    using assms 1 2 r unfolding generate_orders_and_items_def
    by (simp_all del: gen_days.simps)
  have run: "gen_days L cfg (rows acf) ?aps (fst (date_range cfg))
            \<lparr>orders = [], order_items = [], order_id = 1, item_id = 1\<rparr> s = Inr (st, s')"
    using r out(3) unfolding aps by simp
  from gen_days_inv [OF gen_inv_init run] out show ?thesis
    by (auto simp: rows_DataFrame)
qed

subsection \<open>Totals and statuses of the generated orders\<close>

lemma demo_run:
  "generate_orders_and_items demo_sources default_config demo_customers demo_products 0
     = Inr ((demo_orders, demo_order_items), 394)"
  by code_simp

lemma demo_integers_in_range: "integers_in_range demo_sources"
proof -
  have "lo \<le> lo + int s mod (hi - lo) \<and> lo + int s mod (hi - lo) < hi"
    if "lo < hi" for lo hi :: int and s :: nat
    using that pos_mod_bound [of "hi - lo" "int s"] pos_mod_sign [of "hi - lo" "int s"]
    by linarith
  then show ?thesis
    unfolding integers_in_range_def demo_sources_def by auto
qed

lemma subtotals_amounts:
  "list_all2 (item_rel L aps) its prices \<Longrightarrow> map i_subtotal its = map round2 (amounts its prices)"
  by (induction rule: list_all2_induct) (auto simp: amounts_def item_rel_def)

lemma length_amounts:
  "list_all2 R its prices \<Longrightarrow> length (amounts its prices) = length its"
  by (simp add: amounts_def list_all2_lengthD)

lemma length_one_round2:
  assumes "map f its = map round2 xs" "length its = 1"
  shows "sum_list (map f its) = round2 (sum_list xs)"
proof -
  from assms obtain x where "xs = [x]"
    by (metis length_map length_0_conv length_Suc_conv One_nat_def)
  with assms show ?thesis by simp
qed

text \<open>
  C1 (as stated, refuted). In the run below the first order has four items of amount
  10.004 each (catalog price 12.50, discount factor 0.80032, quantity 1): its total is
  40.02, the rounding of 40.016, while its four subtotals of 10.00 add up to 40.00.
\<close>

theorem order_total_differs_from_subtotal_sum:
  "generate_orders_and_items demo_sources default_config demo_customers demo_products 0
     = Inr ((demo_orders, demo_order_items), 394)
   \<and> round2 (o_total_amount (rows demo_orders ! 0))
       \<noteq> sum_list (map i_subtotal
                   (items_of (o_order_id (rows demo_orders ! 0)) (rows demo_order_items)))"
proof -
  have "round2 (o_total_amount (rows demo_orders ! 0))
       \<noteq> sum_list (map i_subtotal
                   (items_of (o_order_id (rows demo_orders ! 0)) (rows demo_order_items)))"
    by code_simp
  with demo_run show ?thesis by blast
qed

text \<open>
  C1 (amended), in exact arithmetic. Every item of a generated order was made with an
  actual price: the catalog price of an active product times the discount factor drawn
  (at least 0.8 and below 1, as NumPy documents). The item's unit price is that actual
  price rounded to cents, and its subtotal is quantity times the actual price, rounded to
  cents. The order's total is the sum of the unrounded amounts, quantity times actual
  price, rounded once. So the total is within \<open>(k + 1) / 2\<close> cents of the sum of the
  \<open>k\<close> subtotals, and equal to it when the order has one item.
\<close>

theorem order_total_rounds_unrounded_sum:
  assumes "generate_orders_and_items L cfg customers products s = Inr ((odf, idf), s')"
    and "ord \<in> set (rows odf)"
    and "its = items_of (o_order_id ord) (rows idf)"
  shows "\<exists>prices.
           list_all2
             (\<lambda>it actual_price.
                 i_unit_price it = round2 actual_price
                 \<and> i_subtotal it = round2 (of_int (i_quantity it) * actual_price)
                 \<and> (\<exists>p\<in>set (rows products). \<exists>u.
                        p_is_active p \<and> p_product_id p = i_product_id it
                        \<and> actual_price = p_price p * u
                        \<and> (uniform_in_range L \<longrightarrow> 8 / 10 \<le> u \<and> u < 1)))
             its prices
           \<and> o_total_amount ord
               = round2 (sum_list (map2 (\<lambda>it actual_price.
                                           of_int (i_quantity it) * actual_price) its prices))
           \<and> \<bar>o_total_amount ord - sum_list (map i_subtotal its)\<bar>
               \<le> (of_nat (length its) + 1) / 200
           \<and> (length its = 1 \<longrightarrow> o_total_amount ord = sum_list (map i_subtotal its))"
proof -
  let ?aps = "filter p_is_active (rows products)"
  from generate_orders_and_items_inv [OF assms(1)] assms(2)
  have "order_rel L cfg ?aps ord its"
    unfolding gen_inv_def assms(3) by auto
  then obtain prices where rel: "list_all2 (item_rel L ?aps) its prices"
    and total: "o_total_amount ord = round2 (sum_list (amounts its prices))"
    unfolding order_rel_def by blast
  have subs: "map i_subtotal its = map round2 (amounts its prices)"
    using rel by (rule subtotals_amounts)
  have len: "length (amounts its prices) = length its"
    using rel by (rule length_amounts)
  have 1: "list_all2
             (\<lambda>it actual_price.
                 i_unit_price it = round2 actual_price
                 \<and> i_subtotal it = round2 (of_int (i_quantity it) * actual_price)
                 \<and> (\<exists>p\<in>set (rows products). \<exists>u.
                        p_is_active p \<and> p_product_id p = i_product_id it
                        \<and> actual_price = p_price p * u
                        \<and> (uniform_in_range L \<longrightarrow> 8 / 10 \<le> u \<and> u < 1)))
             its prices"
    using rel by (rule list_all2_mono) (auto simp: item_rel_def)
  have 2: "o_total_amount ord
               = round2 (sum_list (map2 (\<lambda>it actual_price.
                                           of_int (i_quantity it) * actual_price) its prices))"
    using total unfolding amounts_def .
  have 3: "\<bar>o_total_amount ord - sum_list (map i_subtotal its)\<bar>
               \<le> (of_nat (length its) + 1) / 200"
    using round2_sum_bound [of "amounts its prices"] unfolding total subs len .
  have 4: "length its = 1 \<longrightarrow> o_total_amount ord = sum_list (map i_subtotal its)"
    using length_one_round2 [OF subs] total by simp
  from 1 2 3 4 show ?thesis by blast
qed

theorem order_total_rounds_unrounded_sum_witness:
  "generate_orders_and_items demo_sources default_config demo_customers demo_products 0
     = Inr ((demo_orders, demo_order_items), 394)
   \<and> rows demo_orders ! 1 \<in> set (rows demo_orders)
   \<and> map i_quantity (items_of (o_order_id (rows demo_orders ! 1)) (rows demo_order_items))
       = [2, 2, 2, 2]
   \<and> map i_subtotal (items_of (o_order_id (rows demo_orders ! 1)) (rows demo_order_items))
       = [2001 / 100, 2001 / 100, 2001 / 100, 2001 / 100]
   \<and> o_total_amount (rows demo_orders ! 1) = 8003 / 100
   \<and> (\<exists>prices.
         list_all2
           (\<lambda>it actual_price.
               i_unit_price it = round2 actual_price
               \<and> i_subtotal it = round2 (of_int (i_quantity it) * actual_price)
               \<and> (\<exists>p\<in>set (rows demo_products). \<exists>u.
                      p_is_active p \<and> p_product_id p = i_product_id it
                      \<and> actual_price = p_price p * u
                      \<and> (uniform_in_range demo_sources \<longrightarrow> 8 / 10 \<le> u \<and> u < 1)))
           (items_of (o_order_id (rows demo_orders ! 1)) (rows demo_order_items)) prices
         \<and> o_total_amount (rows demo_orders ! 1)
             = round2 (sum_list (map2 (\<lambda>it actual_price.
                                         of_int (i_quantity it) * actual_price)
                 (items_of (o_order_id (rows demo_orders ! 1)) (rows demo_order_items))
                 prices))
         \<and> \<bar>o_total_amount (rows demo_orders ! 1)
              - sum_list (map i_subtotal
                  (items_of (o_order_id (rows demo_orders ! 1)) (rows demo_order_items)))\<bar>
             \<le> (of_nat (length
                   (items_of (o_order_id (rows demo_orders ! 1)) (rows demo_order_items)))
                 + 1) / 200)"
proof -
  have mem: "rows demo_orders ! 1 \<in> set (rows demo_orders)"
    by (simp add: demo_orders_def)
  have vals:
    "map i_quantity (items_of (o_order_id (rows demo_orders ! 1)) (rows demo_order_items))
       = [2, 2, 2, 2]"
    "map i_subtotal (items_of (o_order_id (rows demo_orders ! 1)) (rows demo_order_items))
       = [2001 / 100, 2001 / 100, 2001 / 100, 2001 / 100]"
    "o_total_amount (rows demo_orders ! 1) = 8003 / 100"
    by (simp_all add: demo_orders_def demo_order_items_def items_of_def)
  from order_total_rounds_unrounded_sum [OF demo_run mem refl]
  obtain prices where
    "list_all2
           (\<lambda>it actual_price.
               i_unit_price it = round2 actual_price
               \<and> i_subtotal it = round2 (of_int (i_quantity it) * actual_price)
               \<and> (\<exists>p\<in>set (rows demo_products). \<exists>u.
                      p_is_active p \<and> p_product_id p = i_product_id it
                      \<and> actual_price = p_price p * u
                      \<and> (uniform_in_range demo_sources \<longrightarrow> 8 / 10 \<le> u \<and> u < 1)))
           (items_of (o_order_id (rows demo_orders ! 1)) (rows demo_order_items)) prices
         \<and> o_total_amount (rows demo_orders ! 1)
             = round2 (sum_list (map2 (\<lambda>it actual_price.
                                         of_int (i_quantity it) * actual_price)
                 (items_of (o_order_id (rows demo_orders ! 1)) (rows demo_order_items))
                 prices))
         \<and> \<bar>o_total_amount (rows demo_orders ! 1)
              - sum_list (map i_subtotal
                  (items_of (o_order_id (rows demo_orders ! 1)) (rows demo_order_items)))\<bar>
             \<le> (of_nat (length
                   (items_of (o_order_id (rows demo_orders ! 1)) (rows demo_order_items)))
                 + 1) / 200"
    by blast
  then show ?thesis using demo_run mem vals by blast
qed

text \<open>
  C2 (the code does the opposite). In the same run the order placed on the first day of
  the range, 365 days before its end, is \<open>pending\<close>, and the order placed on the last
  day is \<open>cancelled\<close>.
\<close>

theorem oldest_order_pending_newest_cancelled:
  "generate_orders_and_items demo_sources default_config demo_customers demo_products 0
     = Inr ((demo_orders, demo_order_items), 394)
   \<and> map (\<lambda>ord. (days (snd (date_range default_config) - o_order_date ord), o_status ord))
         (rows demo_orders)
       = [(365, ''pending''), (0, ''cancelled'')]"
proof -
  have "map (\<lambda>ord. (days (snd (date_range default_config) - o_order_date ord), o_status ord))
          (rows demo_orders)
        = [(365, ''pending''), (0, ''cancelled'')]"
    by code_simp
  with demo_run show ?thesis by blast
qed

text \<open>
  C10. The status of a generated order is the entry of \<open>order_statuses\<close> at index
  \<open>min(4, max(0, 4 - days_ago // 7))\<close>, where \<open>days_ago\<close> is the number of days from
  the order date to the end of the range; no random draw enters it. With the five
  statuses of the configuration, an order fewer than 7 days before the end of the range
  is \<open>cancelled\<close> and an order 28 or more days before it is \<open>pending\<close>.
\<close>

theorem order_status_function_of_order_date:
  assumes "generate_orders_and_items L cfg customers products s = Inr ((odf, idf), s')"
    and "order_statuses cfg = order_statuses default_config"
    and "ord \<in> set (rows odf)"
    and "days_ago = days (snd (date_range cfg) - o_order_date ord)"
  shows "o_status ord = order_statuses cfg ! nat (min 4 (max 0 (4 - days_ago div 7)))
         \<and> (days_ago < 7 \<longrightarrow> o_status ord = ''cancelled'')
         \<and> (28 \<le> days_ago \<longrightarrow> o_status ord = ''pending'')"
proof -
  from generate_orders_and_items_inv [OF assms(1)] assms(3)
  have "order_rel L cfg (filter p_is_active (rows products)) ord
          (items_of (o_order_id ord) (rows idf))"
    unfolding gen_inv_def by auto
  then have g: "getitem (order_statuses cfg) (status_idx days_ago) = Inr (o_status ord)"
    unfolding order_rel_def assms(4) by blast
  have len: "length (order_statuses cfg) = 5"
    using assms(2) by (simp add: default_config_def)
  have rng: "0 \<le> status_idx days_ago" "status_idx days_ago < 5"
    unfolding status_idx_def by auto
  from g rng len have st: "o_status ord = order_statuses cfg ! nat (status_idx days_ago)"
    unfolding getitem_def by simp
  have a: "days_ago < 7 \<Longrightarrow> status_idx days_ago = 4"
    unfolding status_idx_def by (auto simp: min_def max_def) 
  have b: "28 \<le> days_ago \<Longrightarrow> status_idx days_ago = 0"
    unfolding status_idx_def by (auto simp: min_def max_def)
  have c: "order_statuses cfg ! 4 = ''cancelled''" "order_statuses cfg ! 0 = ''pending''"
    using assms(2) by (simp_all add: default_config_def)
  show ?thesis
    using st a b c unfolding status_idx_def by auto
qed

theorem order_status_function_of_order_date_witness:
  "generate_orders_and_items demo_sources default_config demo_customers demo_products 0
     = Inr ((demo_orders, demo_order_items), 394)
   \<and> rows demo_orders ! 0 \<in> set (rows demo_orders)
   \<and> rows demo_orders ! 1 \<in> set (rows demo_orders)
   \<and> (28::int) \<le> 365 \<and> o_status (rows demo_orders ! 0) = ''pending''
   \<and> (0::int) < 7 \<and> o_status (rows demo_orders ! 1) = ''cancelled''"
proof -
  have m0: "rows demo_orders ! 0 \<in> set (rows demo_orders)"
    and m1: "rows demo_orders ! 1 \<in> set (rows demo_orders)"
    by (simp_all add: demo_orders_def)
  have d0: "365 = days (snd (date_range default_config) - o_order_date (rows demo_orders ! 0))"
    and d1: "0 = days (snd (date_range default_config) - o_order_date (rows demo_orders ! 1))"
    by code_simp+
  from order_status_function_of_order_date [OF demo_run refl m0 d0]
       order_status_function_of_order_date [OF demo_run refl m1 d1] demo_run m0 m1
  show ?thesis by (simp add: default_config_def)
qed

subsection \<open>Payments\<close>

lemma gen_payment_raises: "gen_payment L cfg ord acc s = Inl TypeError"
proof -
  obtain payments payment_id where acc: "acc = (payments, payment_id)"
    by (cases acc)
  obtain h s1 where h: "np_integers L 1 24 s = (h, s1)"
    by (cases "np_integers L 1 24 s")
  show ?thesis
    unfolding gen_payment_def acc rng_integers_def using h by simp
qed

lemma generate_payments_raises:
  assumes "rows orders_df \<noteq> []"
  shows "generate_payments L cfg orders_df s = Inl TypeError"
proof -
  from assms obtain ord ords where "rows orders_df = ord # ords"
    by (cases "rows orders_df") auto
  then show ?thesis
    unfolding generate_payments_def by (simp add: gen_payment_raises)
qed


text \<open>
  C6 (the code does not get there). For the two orders of the sample run
  \<open>generate_payments\<close> raises TypeError while it builds the payment date of the first
  order, before any payment is appended: \<open>rng.integers(1, 24)\<close> is a NumPy integer, which
  the \<open>timedelta\<close> constructor refuses. The same holds for every non-empty order frame
  (\<open>generate_payments_raises\<close>).
\<close>

theorem payments_raise_on_first_order:
  "generate_orders_and_items demo_sources default_config demo_customers demo_products 0
     = Inr ((demo_orders, demo_order_items), 394)
   \<and> generate_payments demo_sources default_config demo_orders 394 = Inl TypeError"
proof -
  have "rows demo_orders \<noteq> []"
    by (simp add: demo_orders_def)
  then have "generate_payments demo_sources default_config demo_orders 394 = Inl TypeError"
    by (rule generate_payments_raises)
  with demo_run show ?thesis by blast
qed

section \<open>Properties of the quick generator\<close>


lemma demo_randint_in_range: "randint_in_range demo_sources"
proof -
  have "lo \<le> lo + int s mod (hi - lo) \<and> lo + int s mod (hi - lo) < hi"
    if "lo < hi" for lo hi :: int and s :: nat
    using that pos_mod_bound [of "hi - lo" "int s"] pos_mod_sign [of "hi - lo" "int s"]
    by linarith
  then show ?thesis
    unfolding randint_in_range_def demo_sources_def by simp
qed

lemma np_randint_range:
  "randint_in_range L \<Longrightarrow> np_randint L lo hi s = (k, s') \<Longrightarrow> lo < hi \<Longrightarrow> lo \<le> k \<and> k < hi"
  unfolding randint_in_range_def by (metis fst_conv)

lemma quick_products_has:
  assumes "1 \<le> k" "k < 31"
  shows "filter (\<lambda>p. p_product_id p = k) (quick_products D) \<noteq> []"
proof -
  let ?i = "nat (k - 1)"
  have i: "?i < 30" "int ?i + 1 = k" using assms by auto
  have len: "length (quick_products D) = 30"
    unfolding quick_products_def by simp
  have "p_product_id (quick_products D ! ?i) = k"
    unfolding quick_products_def using i by simp
  moreover have "quick_products D ! ?i \<in> set (quick_products D)"
    using i(1) len by simp
  ultimately have "\<exists>p\<in>set (quick_products D). p_product_id p = k" by blast
  then show ?thesis by (simp add: filter_empty_conv)
qed

lemma quick_item_step:
  assumes "randint_in_range L"
    and "quick_item L (quick_products D) oid (its, nid) s = ((its', nid'), s')"
  shows "\<exists>it. its' = its @ [it] \<and> i_order_id it = oid
           \<and> (i_quantity it = 1 \<or> i_quantity it = 2)"
proof -
  obtain k s1 where k: "np_randint L 1 31 s = (k, s1)"
    by (cases "np_randint L 1 31 s")
  obtain q s2 where q: "np_randint L 1 3 s1 = (q, s2)"
    by (cases "np_randint L 1 3 s1")
  have kr: "1 \<le> k \<and> k < 31" using np_randint_range [OF assms(1) k] by simp
  have qr: "1 \<le> q \<and> q < 3" using np_randint_range [OF assms(1) q] by simp
  have ne: "filter (\<lambda>p. p_product_id p = k) (quick_products D) \<noteq> []"
    using quick_products_has kr by blast
  from assms(2) k q ne qr show ?thesis
    unfolding quick_item_def by (auto simp: Let_def)
qed

lemma quick_items_steps:
  assumes "randint_in_range L"
  shows "quick_items L (quick_products D) oid n (its, nid) s = ((its', nid'), s')
     \<Longrightarrow> \<exists>new. its' = its @ new \<and> length new = n
           \<and> (\<forall>i\<in>set new. i_order_id i = oid \<and> (i_quantity i = 1 \<or> i_quantity i = 2))"
proof (induction n arbitrary: its nid s)
  case 0
  then show ?case by simp
next
  case (Suc n)
  obtain its1 nid1 s1 where
    a: "quick_item L (quick_products D) oid (its, nid) s = ((its1, nid1), s1)"
    by (metis surj_pair)
  with Suc.prems have
    b: "quick_items L (quick_products D) oid n (its1, nid1) s1 = ((its', nid'), s')"
    by simp
  from quick_item_step [OF assms a] obtain it where
    it: "its1 = its @ [it]" "i_order_id it = oid" "i_quantity it = 1 \<or> i_quantity it = 2"
    by blast
  from Suc.IH [OF b] obtain new where
    new: "its' = its1 @ new" "length new = n"
      "\<forall>i\<in>set new. i_order_id i = oid \<and> (i_quantity i = 1 \<or> i_quantity i = 2)"
    by blast
  show ?case
    by (rule exI [of _ "it # new"]) (use it new in auto)
qed

lemma quick_order_items_steps:
  assumes "randint_in_range L"
  shows "quick_order_items L (quick_products D) oids (its, nid) s = ((its', nid'), s')
     \<Longrightarrow> \<exists>new. its' = its @ new
           \<and> (\<forall>i\<in>set new. i_order_id i \<in> set oids \<and> (i_quantity i = 1 \<or> i_quantity i = 2))
           \<and> (distinct oids \<longrightarrow>
                (\<forall>oid\<in>set oids. 1 \<le> length (items_of oid new) \<and> length (items_of oid new) \<le> 3))
           \<and> length oids \<le> length new \<and> length new \<le> 3 * length oids"
proof (induction oids arbitrary: its nid s)
  case Nil
  then show ?case by simp
next
  case (Cons oid oids)
  obtain n s1 where n: "np_randint L 1 4 s = (n, s1)"
    by (cases "np_randint L 1 4 s")
  obtain its1 nid1 s2 where
    a: "quick_items L (quick_products D) oid (nat n) (its, nid) s1 = ((its1, nid1), s2)"
    by (metis surj_pair)
  with Cons.prems n have
    b: "quick_order_items L (quick_products D) oids (its1, nid1) s2 = ((its', nid'), s')"
    by simp
  have nr: "1 \<le> n \<and> n < 4" using np_randint_range [OF assms n] by simp
  from quick_items_steps [OF assms a] obtain new1 where
    new1: "its1 = its @ new1" "length new1 = nat n"
      "\<forall>i\<in>set new1. i_order_id i = oid \<and> (i_quantity i = 1 \<or> i_quantity i = 2)"
    by blast
  from Cons.IH [OF b] obtain new2 where
    new2: "its' = its1 @ new2"
      "\<forall>i\<in>set new2. i_order_id i \<in> set oids \<and> (i_quantity i = 1 \<or> i_quantity i = 2)"
      "distinct oids \<longrightarrow>
         (\<forall>k\<in>set oids. 1 \<le> length (items_of k new2) \<and> length (items_of k new2) \<le> 3)"
      "length oids \<le> length new2" "length new2 \<le> 3 * length oids"
    by blast
  have len1: "1 \<le> length new1" "length new1 \<le> 3" using new1(2) nr by auto
  have own: "items_of oid new1 = new1"
    using new1(3) by (intro items_of_all) auto
  have head: "items_of oid (new1 @ new2) = new1" if "distinct (oid # oids)"
  proof -
    have "items_of oid new2 = []"
      using new2(2) that by (intro items_of_none) auto
    with own show ?thesis by (simp add: items_of_append)
  qed
  have tail: "items_of k (new1 @ new2) = items_of k new2"
    if "distinct (oid # oids)" "k \<in> set oids" for k
  proof -
    have "items_of k new1 = []"
      using new1(3) that by (intro items_of_none) auto
    then show ?thesis by (simp add: items_of_append)
  qed
  have c: "distinct (oid # oids) \<longrightarrow>
             (\<forall>k\<in>set (oid # oids). 1 \<le> length (items_of k (new1 @ new2))
                \<and> length (items_of k (new1 @ new2)) \<le> 3)"
    using head tail len1 new2(3) by auto
  show ?case
    apply (rule exI [of _ "new1 @ new2"])
    using new1 new2 len1 c by auto
qed

lemma quick_run:
  assumes "generate_quick_data L D s = (qd, s')"
  shows "qk_orders qd = quick_orders D" "qk_payments qd = quick_payments D (quick_orders D)"
    "\<exists>nid. quick_order_items L (quick_products D) (map int [1..<101]) ([], 1) s
             = ((qk_order_items qd, nid), s')"
  using assms unfolding generate_quick_data_def
  by (auto simp: Let_def split: prod.splits)

lemma quick_order_ids: "map o_order_id (quick_orders D) = map int [1..<101]"
proof -
  have "map o_order_id (quick_orders D) = map (\<lambda>i. int i + 1) [0..<100]"
    unfolding quick_orders_def by simp
  also have "\<dots> = map int (map Suc [0..<100])" by simp
  also have "map Suc [0..<100] = [1..<101]"
    using map_Suc_upt [of 0 100] by simp
  finally show ?thesis .
qed


section \<open>Item counts and payment dates in both generators\<close>


text \<open>
  C8. In a run of the advanced generator every order has between 1 and 4 items and
  every item has quantity 1 or 2, so the number of items lies between the number of
  orders and four times that number. The quick generator draws 1 to 3 items for each of
  its 100 orders, again with quantity 1 or 2, so it produces between 100 and 400 items
  (at most 300). Both rest on what NumPy documents of its integer draws.
\<close>

theorem items_per_order_and_quantities:
  "(integers_in_range L \<longrightarrow>
      generate_orders_and_items L cfg customers products s = Inr ((odf, idf), s') \<longrightarrow>
        (\<forall>ord\<in>set (rows odf).
            1 \<le> length (items_of (o_order_id ord) (rows idf))
            \<and> length (items_of (o_order_id ord) (rows idf)) \<le> 4)
        \<and> (\<forall>i\<in>set (rows idf). i_quantity i = 1 \<or> i_quantity i = 2)
        \<and> length (rows odf) \<le> length (rows idf)
        \<and> length (rows idf) \<le> 4 * length (rows odf))
   \<and> (randint_in_range Lq \<longrightarrow>
      generate_quick_data Lq D sq = (qd, sq') \<longrightarrow>
        length (qk_orders qd) = 100
        \<and> (\<forall>ord\<in>set (qk_orders qd).
            1 \<le> length (items_of (o_order_id ord) (qk_order_items qd))
            \<and> length (items_of (o_order_id ord) (qk_order_items qd)) \<le> 4)
        \<and> (\<forall>i\<in>set (qk_order_items qd). i_quantity i = 1 \<or> i_quantity i = 2)
        \<and> 100 \<le> length (qk_order_items qd)
        \<and> length (qk_order_items qd) \<le> 400)"
proof (intro conjI impI)
  assume c: "integers_in_range L"
    and run: "generate_orders_and_items L cfg customers products s = Inr ((odf, idf), s')"
  from generate_orders_and_items_inv [OF run] obtain st where
    st: "gen_inv L cfg (filter p_is_active (rows products)) st"
      "rows odf = orders st" "rows idf = order_items st"
    by blast
  from st(1) c have rel:
    "\<forall>ord\<in>set (orders st). order_rel L cfg (filter p_is_active (rows products)) ord
        (items_of (o_order_id ord) (order_items st))"
    and cnt: "length (orders st) \<le> length (order_items st)"
      "length (order_items st) \<le> 4 * length (orders st)"
      "\<forall>i\<in>set (order_items st). i_quantity i = 1 \<or> i_quantity i = 2"
    unfolding gen_inv_def by blast+
  show "\<forall>ord\<in>set (rows odf).
            1 \<le> length (items_of (o_order_id ord) (rows idf))
            \<and> length (items_of (o_order_id ord) (rows idf)) \<le> 4"
    using rel c st(2,3) unfolding order_rel_def by auto
  show "\<forall>i\<in>set (rows idf). i_quantity i = 1 \<or> i_quantity i = 2"
    using cnt(3) st(3) by simp
  show "length (rows odf) \<le> length (rows idf)"
    using cnt(1) st(2,3) by simp
  show "length (rows idf) \<le> 4 * length (rows odf)"
    using cnt(2) st(2,3) by simp
next
  assume c: "randint_in_range Lq"
    and run: "generate_quick_data Lq D sq = (qd, sq')"
  from quick_run [OF run] obtain nid where
    ords: "qk_orders qd = quick_orders D" and
    items: "quick_order_items Lq (quick_products D) (map int [1..<101]) ([], 1) sq
              = ((qk_order_items qd, nid), sq')"
    by blast
  have dist: "distinct (map int [1..<101])"
    by (simp add: distinct_map inj_on_def)
  from quick_order_items_steps [OF c items] dist have
    q: "\<forall>i\<in>set (qk_order_items qd). i_quantity i = 1 \<or> i_quantity i = 2" and
    per: "\<forall>oid\<in>set (map int [1..<101]).
            1 \<le> length (items_of oid (qk_order_items qd))
            \<and> length (items_of oid (qk_order_items qd)) \<le> 3" and
    len: "length (map int [1..<101]) \<le> length (qk_order_items qd)"
      "length (qk_order_items qd) \<le> 3 * length (map int [1..<101])"
    by auto
  show "length (qk_orders qd) = 100"
    using ords unfolding quick_orders_def by simp
  show "\<forall>ord\<in>set (qk_orders qd).
            1 \<le> length (items_of (o_order_id ord) (qk_order_items qd))
            \<and> length (items_of (o_order_id ord) (qk_order_items qd)) \<le> 4"
  proof
    fix ord assume "ord \<in> set (qk_orders qd)"
    then have "o_order_id ord \<in> set (map o_order_id (quick_orders D))"
      using ords by simp
    then have "o_order_id ord \<in> set (map int [1..<101])"
      by (simp only: quick_order_ids)
    with per show "1 \<le> length (items_of (o_order_id ord) (qk_order_items qd))
            \<and> length (items_of (o_order_id ord) (qk_order_items qd)) \<le> 4"
      by fastforce
  qed
  show "\<forall>i\<in>set (qk_order_items qd). i_quantity i = 1 \<or> i_quantity i = 2"
    using q .
  show "100 \<le> length (qk_order_items qd)" using len(1) by simp
  show "length (qk_order_items qd) \<le> 400" using len(2) by simp
qed

theorem items_per_order_and_quantities_witness:
  "integers_in_range demo_sources
   \<and> generate_orders_and_items demo_sources default_config demo_customers demo_products 0
       = Inr ((demo_orders, demo_order_items), 394)
   \<and> length (items_of 1 (rows demo_order_items)) = 4
   \<and> length (rows demo_orders) \<le> length (rows demo_order_items)
   \<and> length (rows demo_order_items) \<le> 4 * length (rows demo_orders)
   \<and> randint_in_range demo_sources
   \<and> 100 \<le> length (qk_order_items (fst (generate_quick_data demo_sources demo_draws 0)))
   \<and> length (qk_order_items (fst (generate_quick_data demo_sources demo_draws 0))) \<le> 400"
proof -
  have run: "generate_quick_data demo_sources demo_draws 0
               = (fst (generate_quick_data demo_sources demo_draws 0),
                  snd (generate_quick_data demo_sources demo_draws 0))"
    by simp
  have three: "length (items_of 1 (rows demo_order_items)) = 4"
    by (simp add: items_of_def demo_order_items_def)
  from items_per_order_and_quantities
         [of demo_sources default_config demo_customers demo_products 0
             demo_orders demo_order_items 394 demo_sources demo_draws 0
             "fst (generate_quick_data demo_sources demo_draws 0)"
             "snd (generate_quick_data demo_sources demo_draws 0)"]
       demo_integers_in_range demo_randint_in_range demo_run run three
  show ?thesis by blast
qed




section \<open>Properties of the integrity validator\<close>


lemma demo_validates:
  "validate_data_integrity demo_customers demo_products demo_orders demo_order_items
     demo_payments = Inr ()"
  by (simp add: validate_data_integrity_def assert_subset_def assert_all_def column_def
      demo_customers_def demo_products_def demo_orders_def demo_order_items_def
      demo_payments_def DataFrame_def)










section \<open>Properties of the ingestion engine\<close>


lemma is_valid_add_issue: "is_valid (add_issue msg v) = False"
  by (simp add: add_issue_def)

lemma is_valid_fold_add_issue:
  "is_valid (fold (\<lambda>col. add_issue (f col)) cols v) = (is_valid v \<and> cols = [])"
  by (induction cols arbitrary: v) (auto simp: is_valid_add_issue)

lemma member_nonempty: "x \<in> set xs \<Longrightarrow> xs \<noteq> []"
  by auto

lemma validate_null_critical:
  assumes "map_of critical_columns table_name = Some cols" "col \<in> set cols"
    "col \<in> set (df_columns df)" "\<exists>r\<in>set (df_rows df). r col = Null"
  shows "\<not> is_valid (validate_data_quality df table_name)"
proof -
  let ?nulls = "filter (\<lambda>c. c \<in> set (df_columns df) \<and> isnull_any df c) cols"
  have "isnull_any df col"
    using assms(4) unfolding isnull_any_def list_ex_iff by blast
  with assms(2,3) have "col \<in> set ?nulls" by simp
  then have "?nulls \<noteq> []" by (rule member_nonempty)
  then have "\<not> is_valid (fold (\<lambda>c. add_issue (''Null values found in critical column: '' @ c))
                ?nulls \<lparr>is_valid = True, issues = []\<rparr>)"
    by (simp add: is_valid_fold_add_issue)
  then show ?thesis
    unfolding validate_data_quality_def using assms(1)
    by (auto simp: Let_def is_valid_add_issue split: sum.splits)
qed

lemma ingest_table_null_critical:
  assumes "read_csv E csv_path = Csv df"
    "map_of critical_columns table_name = Some cols" "col \<in> set cols"
    "col \<in> set (df_columns df)" "\<exists>r\<in>set (df_rows df). r col = Null"
  shows "ingest_table E table_name csv_path db = (False, db)"
  using validate_null_critical [OF assms(2-5)] assms(1)
  unfolding ingest_table_def by simp

lemma map_of_setitem: "map_of (setitem res k v) = (map_of res)(k \<mapsto> v)"
  by (induction res k v rule: setitem.induct) (auto simp: fun_upd_twist)

lemma keys_setitem:
  "map fst (setitem res k v) = (if k \<in> set (map fst res) then map fst res else map fst res @ [k])"
  by (induction res k v rule: setitem.induct) auto

lemma ingest_files_store:
  "snd (ingest_files E dd fs (res, db)) = snd (ingest_files E dd fs (res', db))"
proof (induction fs arbitrary: res res' db)
  case Nil
  show ?case by simp
next
  case (Cons f fs)
  obtain ok db1 where t: "ingest_table E (replace_csv f) (dd @ ''/'' @ f) db = (ok, db1)"
    by (cases "ingest_table E (replace_csv f) (dd @ ''/'' @ f) db")
  show ?case
    using Cons.IH [of "setitem res (replace_csv f) ok" db1 "setitem res' (replace_csv f) ok"] t
    by (simp add: Let_def)
qed

lemma ingest_files_results:
  "map_of (fst (ingest_files E dd fs (res, db)))
     = map_of res ++ map_of (fst (ingest_files E dd fs ([], db)))"
proof (induction fs arbitrary: res db)
  case Nil
  show ?case by simp
next
  case (Cons f fs)
  obtain ok db1 where t: "ingest_table E (replace_csv f) (dd @ ''/'' @ f) db = (ok, db1)"
    by (cases "ingest_table E (replace_csv f) (dd @ ''/'' @ f) db")
  let ?t = "replace_csv f"
  let ?M = "map_of (fst (ingest_files E dd fs ([], db1)))"
  have step: "ingest_files E dd (f # fs) (r, db) = ingest_files E dd fs (setitem r ?t ok, db1)"
    for r
    using t by (simp add: Let_def)
  have ih: "map_of (fst (ingest_files E dd fs (setitem r ?t ok, db1)))
              = map_of (setitem r ?t ok) ++ ?M" for r
    by (rule Cons.IH)
  have a: "map_of (fst (ingest_files E dd (f # fs) (res, db))) = (map_of res)(?t \<mapsto> ok) ++ ?M"
    unfolding step ih map_of_setitem ..
  have b: "map_of (fst (ingest_files E dd (f # fs) ([], db))) = [?t \<mapsto> ok] ++ ?M"
    unfolding step ih map_of_setitem by simp
  have "(map_of res)(?t \<mapsto> ok) ++ ?M = map_of res ++ ([?t \<mapsto> ok] ++ ?M)"
  proof
    fix u
    show "((map_of res)(?t \<mapsto> ok) ++ ?M) u = (map_of res ++ ([?t \<mapsto> ok] ++ ?M)) u"
      by (simp add: map_add_def split: option.splits)
  qed
  then show ?case unfolding a b .
qed

lemma ingest_files_keys:
  "distinct (map fst res @ map replace_csv fs)
     \<Longrightarrow> map fst (fst (ingest_files E dd fs (res, db))) = map fst res @ map replace_csv fs"
proof (induction fs arbitrary: res db)
  case Nil
  show ?case by simp
next
  case (Cons f fs)
  obtain ok db1 where t: "ingest_table E (replace_csv f) (dd @ ''/'' @ f) db = (ok, db1)"
    by (cases "ingest_table E (replace_csv f) (dd @ ''/'' @ f) db")
  have k: "map fst (setitem res (replace_csv f) ok) = map fst res @ [replace_csv f]"
    using Cons.prems by (auto simp: keys_setitem)
  have "distinct (map fst (setitem res (replace_csv f) ok) @ map replace_csv fs)"
    using Cons.prems k by auto
  from Cons.IH [OF this, of db1] k t show ?case
    by (simp add: Let_def)
qed

lemma ingest_files_append:
  "ingest_files E dd (pre @ post) acc = ingest_files E dd post (ingest_files E dd pre acc)"
proof (induction pre arbitrary: acc)
  case Nil
  show ?case by simp
next
  case (Cons f pre)
  obtain res db where acc: "acc = (res, db)" by (cases acc)
  obtain ok db1 where t: "ingest_table E (replace_csv f) (dd @ ''/'' @ f) db = (ok, db1)"
    by (cases "ingest_table E (replace_csv f) (dd @ ''/'' @ f) db")
  show ?case using Cons.IH acc t by (simp add: Let_def)
qed

lemma ingest_files_skip:
  assumes fail: "\<And>db. ingest_table E (replace_csv f) (dd @ ''/'' @ f) db = (False, db)"
    and dist: "distinct (map replace_csv (pre @ f # post))"
  shows "snd (ingest_files E dd (pre @ f # post) ([], db))
           = snd (ingest_files E dd (pre @ post) ([], db))"
    and "map_of (fst (ingest_files E dd (pre @ f # post) ([], db))) (replace_csv f) = Some False"
    and "u \<noteq> replace_csv f \<Longrightarrow>
           map_of (fst (ingest_files E dd (pre @ f # post) ([], db))) u
             = map_of (fst (ingest_files E dd (pre @ post) ([], db))) u"
proof -
  obtain res1 db1 where pre: "ingest_files E dd pre ([], db) = (res1, db1)"
    by (cases "ingest_files E dd pre ([], db)")
  let ?t = "replace_csv f"
  let ?M = "map_of (fst (ingest_files E dd post ([], db1)))"
  have full: "ingest_files E dd (pre @ f # post) ([], db)
                = ingest_files E dd post (setitem res1 ?t False, db1)"
    using ingest_files_append [of E dd pre "f # post" "([], db)"] pre fail [of db1]
    by (simp add: Let_def)
  have skip: "ingest_files E dd (pre @ post) ([], db) = ingest_files E dd post (res1, db1)"
    using ingest_files_append [of E dd pre post "([], db)"] pre by simp
  show "snd (ingest_files E dd (pre @ f # post) ([], db))
           = snd (ingest_files E dd (pre @ post) ([], db))"
    unfolding full skip by (rule ingest_files_store)
  have mfull: "map_of (fst (ingest_files E dd (pre @ f # post) ([], db)))
                 = (map_of res1)(?t \<mapsto> False) ++ ?M"
    unfolding full using ingest_files_results [of E dd post "setitem res1 ?t False" db1]
    by (simp add: map_of_setitem)
  have mskip: "map_of (fst (ingest_files E dd (pre @ post) ([], db))) = map_of res1 ++ ?M"
    unfolding skip by (rule ingest_files_results)
  have "distinct (map fst ([] :: (string \<times> bool) list) @ map replace_csv post)"
    using dist by simp
  from ingest_files_keys [OF this, of E dd db1]
  have "dom ?M = set (map replace_csv post)"
    by (simp add: dom_map_of_conv_image_fst image_image)
       (metis image_image list.set_map)
  moreover have "?t \<notin> set (map replace_csv post)"
    using dist by auto
  ultimately have "?M ?t = None" by blast
  then show "map_of (fst (ingest_files E dd (pre @ f # post) ([], db))) ?t = Some False"
    unfolding mfull by (simp add: map_add_def)
  show "map_of (fst (ingest_files E dd (pre @ f # post) ([], db))) u
          = map_of (fst (ingest_files E dd (pre @ post) ([], db))) u"
    if "u \<noteq> ?t"
    unfolding mfull mskip using that by (simp add: map_add_def split: option.splits)
qed

lemma table_names: "map replace_csv ingestion_order
    = [''customers'', ''products'', ''orders'', ''order_items'', ''payments'']"
  by (simp add: ingestion_order_def)

text \<open>
  C4. When the file of one of the five tables has a null in one of that table's critical
  columns, ingesting the table returns False and leaves the store as it was. The run
  still records a result for each of the five tables, in the fixed order, with False for
  this one; the results of the other tables and the final store are exactly those of a
  run that leaves the failing file out.
\<close>

theorem null_in_critical_column_fails_that_table_only:
  assumes "csv_file \<in> set ingestion_order"
    and "read_csv E (data_dir @ ''/'' @ csv_file) = Csv df"
    and "map_of critical_columns (replace_csv csv_file) = Some cols"
    and "col \<in> set cols" and "col \<in> set (df_columns df)"
    and "\<exists>r\<in>set (df_rows df). r col = Null"
    and "path_exists E data_dir"
  shows "ingest_table E (replace_csv csv_file) (data_dir @ ''/'' @ csv_file) db = (False, db)
         \<and> map fst (fst (ingest_all_data E data_dir db))
             = [''customers'', ''products'', ''orders'', ''order_items'', ''payments'']
         \<and> map_of (fst (ingest_all_data E data_dir db)) (replace_csv csv_file) = Some False
         \<and> (\<forall>u. u \<noteq> replace_csv csv_file \<longrightarrow>
               map_of (fst (ingest_all_data E data_dir db)) u
                 = map_of (fst (ingest_files E data_dir (remove1 csv_file ingestion_order)
                                  ([], db))) u)
         \<and> snd (ingest_all_data E data_dir db)
             = snd (ingest_files E data_dir (remove1 csv_file ingestion_order) ([], db))"
proof -
  have fail: "ingest_table E (replace_csv csv_file) (data_dir @ ''/'' @ csv_file) d = (False, d)"
    for d
    using ingest_table_null_critical [OF assms(2-6)] .
  from split_list_first [OF assms(1)] obtain pre post where
    split: "ingestion_order = pre @ csv_file # post" "csv_file \<notin> set pre"
    by blast
  have rm: "remove1 csv_file ingestion_order = pre @ post"
    unfolding split(1) using split(2) by (simp add: remove1_append)
  have dist: "distinct (map replace_csv (pre @ csv_file # post))"
    unfolding split(1) [symmetric] table_names by simp
  have all: "ingest_all_data E data_dir db = ingest_files E data_dir (pre @ csv_file # post) ([], db)"
    unfolding ingest_all_data_def using assms(7) split(1) by simp
  have keys: "map fst (fst (ingest_all_data E data_dir db))
             = [''customers'', ''products'', ''orders'', ''order_items'', ''payments'']"
  proof -
    have "distinct (map fst ([] :: (string \<times> bool) list) @ map replace_csv ingestion_order)"
      unfolding table_names by simp
    from ingest_files_keys [OF this, of E data_dir db] show ?thesis
      unfolding ingest_all_data_def using assms(7) by (simp add: table_names)
  qed
  from ingest_files_skip [of E csv_file data_dir pre post, OF fail dist]
  show ?thesis
    unfolding all rm using fail keys [unfolded all] by blast
qed

theorem null_in_critical_column_fails_that_table_only_witness:
  "''customers.csv'' \<in> set ingestion_order
   \<and> read_csv (sample_engine customers_missing_email) (''data'' @ ''/'' @ ''customers.csv'')
       = Csv customers_missing_email
   \<and> map_of critical_columns (replace_csv ''customers.csv'')
       = Some [''customer_id'', ''email'', ''first_name'', ''last_name'']
   \<and> ''email'' \<in> set (df_columns customers_missing_email)
   \<and> (\<exists>r\<in>set (df_rows customers_missing_email). r ''email'' = Null)
   \<and> path_exists (sample_engine customers_missing_email) ''data''
   \<and> ingest_table (sample_engine customers_missing_email) (replace_csv ''customers.csv'')
        (''data'' @ ''/'' @ ''customers.csv'') [] = (False, [])
   \<and> fst (ingest_all_data (sample_engine customers_missing_email) ''data'' [])
       = [(''customers'', False), (''products'', True), (''orders'', True),
          (''order_items'', True), (''payments'', True)]
   \<and> snd (ingest_all_data (sample_engine customers_missing_email) ''data'' [])
       = snd (ingest_files (sample_engine customers_missing_email) ''data''
                (remove1 ''customers.csv'' ingestion_order) ([], []))"
proof -
  have h1: "''customers.csv'' \<in> set ingestion_order"
    by (simp add: ingestion_order_def)
  have h2: "read_csv (sample_engine customers_missing_email) (''data'' @ ''/'' @ ''customers.csv'')
       = Csv customers_missing_email"
    by (simp add: sample_engine_def)
  have h3: "map_of critical_columns (replace_csv ''customers.csv'')
       = Some [''customer_id'', ''email'', ''first_name'', ''last_name'']"
    by (simp add: critical_columns_def)
  have h4: "''email'' \<in> set [''customer_id'', ''email'', ''first_name'', ''last_name'']"
    by simp
  have h5: "''email'' \<in> set (df_columns customers_missing_email)"
    by (simp add: customers_missing_email_def)
  have h6: "\<exists>r\<in>set (df_rows customers_missing_email). r ''email'' = Null"
    by (simp add: customers_missing_email_def)
  have h7: "path_exists (sample_engine customers_missing_email) ''data''"
    by (simp add: sample_engine_def)
  have res: "fst (ingest_all_data (sample_engine customers_missing_email) ''data'' [])
       = [(''customers'', False), (''products'', True), (''orders'', True),
          (''order_items'', True), (''payments'', True)]"
    by code_simp
  from null_in_critical_column_fails_that_table_only [OF h1 h2 h3 h4 h5 h6 h7, of "[]"]
       h1 h2 h3 h5 h6 h7 res
  show ?thesis by blast
qed

text \<open>
  What \<open>main\<close> does once the database is initialised: exit code 0 when every recorded
  result is True, 1 as soon as one is False; with the data directory missing, nothing is
  recorded and the exit code is 0.
\<close>

lemma exit_code_after_initialisation:
  assumes "initialize_database E = InitOk db"
    and "ingest_all_data E ''data'' db = (results, db')"
  shows "ingestion_main E = (if list_all snd results then 0 else 1)"
  using assms unfolding ingestion_main_def by simp

lemma missing_data_directory_exits_zero:
  assumes "initialize_database E = InitOk db" and "\<not> path_exists E ''data''"
  shows "ingest_all_data E ''data'' db = ([], db) \<and> ingestion_main E = 0"
  using assms unfolding ingestion_main_def ingest_all_data_def by simp





end
